theory Spec2Isabelle
  imports Main "HOL-Library.Char_ord" "HOL-Library.List_Lexorder" "HOL-Library.Product_Lexorder"
begin

section \<open>Edge Builder: \<^verbatim>\<open>Python Scrapers/convert to network format.py\<close>\<close>

text \<open>
  The script reads one roster table and writes three tables: nodes, hierarchical edges and
  co-staff edges. A table cell that is empty in the CSV is \<^verbatim>\<open>NaN\<close> in pandas; here it is
  \<open>None\<close>. The columns the script reads are the fields of \<open>staff_row\<close>.
\<close>

record staff_row =
  Team :: "string option"
  Year :: "int option"
  role_category :: "string option"
  role_subcategory :: "string option"
  position_group :: "string option"
  side_of_ball :: "string option"
  Name :: "string option"

text \<open>The frame after lines 18 and 26: the columns added by \<^verbatim>\<open>map\<close> and \<^verbatim>\<open>merge\<close>.\<close>

record df_row = staff_row +
  hierarchy_level :: "int option"
  coach_id :: "nat option"
  coach :: "string option"

text \<open>The dictionaries appended in the two loops share eight keys.\<close>

record edge =
  from_coach_id :: "nat option"
  to_coach_id :: "nat option"
  team :: string
  year :: int
  from_role :: "string option"
  to_role :: "string option"
  from_side :: "string option"
  to_side :: "string option"

record hier_edge = edge +
  edge_weight :: nat
  edge_type :: string

record costaff_edge = edge +
  from_role_subcategory :: "string option"
  from_position_group :: "string option"
  to_role_subcategory :: "string option"
  to_position_group :: "string option"

subsection \<open>Python comparisons on cells\<close>



text \<open>\<^verbatim>\<open>Series.isin(values)\<close> for a list of values without \<^verbatim>\<open>NaN\<close>.\<close>

definition isin :: "'a option \<Rightarrow> 'a list \<Rightarrow> bool" where
  "isin c vs = (case c of None \<Rightarrow> False | Some x \<Rightarrow> x \<in> set vs)"

subsection \<open>Lines 7 to 26: filter, hierarchy level, nodes table, merge\<close>

definition allowed_roles :: "string list" where
  "allowed_roles = [''Head Coach'', ''Coordinator'', ''Position Coach - Defense'',
                    ''Position Coach - Offense'', ''Specialist Coach'']"

definition hierarchy_map :: "(string \<times> int) list" where
  "hierarchy_map = [(''Head Coach'', 1), (''Coordinator'', 2), (''Position Coach - Defense'', 3),
                    (''Position Coach - Offense'', 3), (''Specialist Coach'', 4)]"

text \<open>\<^verbatim>\<open>Series.map(dict)\<close>: a key that the dictionary lacks, and \<^verbatim>\<open>NaN\<close>, give \<^verbatim>\<open>NaN\<close>.\<close>

definition level :: "string option \<Rightarrow> int option" where
  "level c = (case c of None \<Rightarrow> None | Some s \<Rightarrow> map_of hierarchy_map s)"

definition keep_allowed :: "staff_row list \<Rightarrow> staff_row list" where
  "keep_allowed df = filter (\<lambda>r. isin (role_category r) allowed_roles) df"

text \<open>
  \<^verbatim>\<open>drop_duplicates\<close> keeps the first occurrence of each value and counts two \<^verbatim>\<open>NaN\<close> as
  the same value.
\<close>

fun drop_duplicates :: "'a list \<Rightarrow> 'a list" where
  "drop_duplicates [] = []"
| "drop_duplicates (x # xs) = x # drop_duplicates (filter (\<lambda>y. y \<noteq> x) xs)"

text \<open>The nodes table: column \<^verbatim>\<open>coach\<close> and \<^verbatim>\<open>coach_id = index + 1\<close>.\<close>

definition nodes :: "staff_row list \<Rightarrow> (string option \<times> nat) list" where
  "nodes df = (let names = drop_duplicates (map Name df)
               in zip names (map Suc [0..<length names]))"

text \<open>
  \<^verbatim>\<open>df.merge(nodes, left_on='Name', right_on='coach', how='left')\<close>: the rows of the left
  frame in their order, one output row for every matching node, and one row with empty node
  columns when no node matches. The merge matches \<^verbatim>\<open>NaN\<close> keys with each other.
\<close>

definition merge_row :: "(string option \<times> nat) list \<Rightarrow> staff_row \<Rightarrow> df_row list" where
  "merge_row nd r =
     (case filter (\<lambda>n. fst n = Name r) nd of
        [] \<Rightarrow> [staff_row.extend r
                (df_row.fields (level (role_category r)) None None)]
      | ms \<Rightarrow> map (\<lambda>n. staff_row.extend r
                (df_row.fields (level (role_category r)) (Some (snd n)) (fst n))) ms)"

definition prepare :: "staff_row list \<Rightarrow> df_row list" where
  "prepare rows = (let df = keep_allowed rows in concat (map (merge_row (nodes df)) df))"

subsection \<open>\<^verbatim>\<open>groupby(["Team", "Year"])\<close>\<close>

text \<open>
  The groups come in the sorted order of their keys; a row whose key has a \<^verbatim>\<open>NaN\<close> is in
  no group; the rows of a group keep their order.
\<close>

definition group_key :: "df_row \<Rightarrow> (string \<times> int) option" where
  "group_key r = (case Team r of None \<Rightarrow> None
                  | Some t \<Rightarrow> (case Year r of None \<Rightarrow> None | Some y \<Rightarrow> Some (t, y)))"

definition group_keys :: "df_row list \<Rightarrow> (string \<times> int) list" where
  "group_keys df = sort (remdups (concat (map (\<lambda>r. case group_key r of None \<Rightarrow> [] | Some k \<Rightarrow> [k]) df)))"

definition groupby :: "df_row list \<Rightarrow> ((string \<times> int) \<times> df_row list) list" where
  "groupby df = map (\<lambda>k. (k, filter (\<lambda>r. group_key r = Some k) df)) (group_keys df)"

subsection \<open>Lines 29 to 48: hierarchical edges\<close>

definition base_edge :: "string \<times> int \<Rightarrow> df_row \<Rightarrow> df_row \<Rightarrow> edge" where
  "base_edge k src tgt =
     \<lparr> from_coach_id = coach_id src, to_coach_id = coach_id tgt,
       team = fst k, year = snd k,
       from_role = role_category src, to_role = role_category tgt,
       from_side = side_of_ball src, to_side = side_of_ball tgt \<rparr>"




subsection \<open>Lines 51 to 70: co-staff edges\<close>

definition mk_costaff_edge :: "string \<times> int \<Rightarrow> df_row \<Rightarrow> df_row \<Rightarrow> costaff_edge" where
  "mk_costaff_edge k src tgt =
     edge.extend (base_edge k src tgt)
       (costaff_edge.fields (role_subcategory src) (position_group src)
                            (role_subcategory tgt) (position_group tgt))"

definition costaff_group :: "string \<times> int \<Rightarrow> df_row list \<Rightarrow> costaff_edge list" where
  "costaff_group k g =
     concat (map (\<lambda>src. concat (map (\<lambda>tgt. [mk_costaff_edge k src tgt]) g)) g)"

definition costaff_edges :: "df_row list \<Rightarrow> costaff_edge list" where
  "costaff_edges df = concat (map (\<lambda>(k, g). costaff_group k g) (groupby df))"


text \<open>
  The row that the merge produces for a roster row \<open>r\<close> whose name has the node
  number \<open>i\<close>.
\<close>

definition with_id :: "staff_row \<Rightarrow> nat \<Rightarrow> df_row" where
  "with_id r i = staff_row.extend r (df_row.fields (level (role_category r)) (Some i) (Name r))"

subsection \<open>A small roster\<close>

text \<open>
  One team-season with a head coach whose side of ball is empty, an offensive coordinator
  and a quarterbacks coach.
\<close>

definition ex_hc :: staff_row where
  "ex_hc = \<lparr> Team = Some ''CHI'', Year = Some 2020, role_category = Some ''Head Coach'',
             role_subcategory = None, position_group = None, side_of_ball = None,
             Name = Some ''Ann'' \<rparr>"

definition ex_oc :: staff_row where
  "ex_oc = \<lparr> Team = Some ''CHI'', Year = Some 2020, role_category = Some ''Coordinator'',
             role_subcategory = Some ''OC'', position_group = None, side_of_ball = Some ''Offense'',
             Name = Some ''Bob'' \<rparr>"

definition ex_qb :: staff_row where
  "ex_qb = \<lparr> Team = Some ''CHI'', Year = Some 2020, role_category = Some ''Position Coach - Offense'',
             role_subcategory = None, position_group = Some ''QB'', side_of_ball = Some ''Offense'',
             Name = Some ''Cy'' \<rparr>"

definition ex_roster :: "staff_row list" where
  "ex_roster = [ex_hc, ex_oc, ex_qb]"

subsection \<open>The specification's reading of a malformed roster row\<close>



section \<open>Query and filter engine: \<^verbatim>\<open>Network Vis/network_app.py\<close>, lines 62 to 251\<close>

text \<open>
  The application is a script that reads a nodes table and an edges table, asks the user
  for a selection through widgets and computes the nodes and edges to draw. Here a table is
  a frame: its column names and its rows, a row giving a cell for every column. What the
  user does with the widgets is the record \<open>ui\<close>.
\<close>

datatype cell = NaN | IntC int | StrC string

type_synonym row = "(string \<times> cell) list"

record frame =
  columns :: "string list"
  content :: "row list"

definition cell_at :: "row \<Rightarrow> string \<Rightarrow> cell" where
  "cell_at r c = (case map_of r c of None \<Rightarrow> NaN | Some v \<Rightarrow> v)"

definition column :: "frame \<Rightarrow> string \<Rightarrow> cell list" where
  "column df c = map (\<lambda>r. cell_at r c) (content df)"

definition dropna :: "cell list \<Rightarrow> cell list" where
  "dropna cs = filter (\<lambda>c. c \<noteq> NaN) cs"

text \<open>
  \<^verbatim>\<open>sorted\<close> on the values of one column, which are all numbers or all strings: numbers
  by value, strings by code point.
\<close>

definition sort_key_of :: "cell \<Rightarrow> int \<times> string" where
  "sort_key_of c = (case c of NaN \<Rightarrow> (0, []) | IntC n \<Rightarrow> (n, []) | StrC s \<Rightarrow> (0, s))"

definition py_sorted :: "cell list \<Rightarrow> cell list" where
  "py_sorted cs = sort_key sort_key_of cs"

text \<open>\<^verbatim>\<open>str\<close> of a cell, as the f-string of line 124 and \<^verbatim>\<open>str(x)\<close> of line 127 format it.\<close>

function str_nat :: "nat \<Rightarrow> string" where
  "str_nat n = (if n < 10 then [''0123456789'' ! n]
                else str_nat (n div 10) @ [''0123456789'' ! (n mod 10)])"
  by pat_completeness auto
termination by (relation "measure id") auto

declare str_nat.simps [simp del]

definition py_str :: "cell \<Rightarrow> string" where
  "py_str c = (case c of
       NaN \<Rightarrow> ''nan''
     | IntC n \<Rightarrow> (if n < 0 then CHR ''-'' # str_nat (nat (- n)) else str_nat (nat n))
     | StrC s \<Rightarrow> s)"

datatype filter_mode = Individual_Node | Community

text \<open>
  The ways in which the script ends before line 251: the two schema errors of lines 68 and
  79 (\<^verbatim>\<open>st.error\<close> followed by \<^verbatim>\<open>st.stop\<close>), the \<^verbatim>\<open>KeyError\<close> of line 135 and the
  \<^verbatim>\<open>NetworkXError\<close> of line 153.
\<close>

datatype app_error = Edges_schema_error | Nodes_schema_error | Key_error | Networkx_error

datatype warning =
    No_valid_communities
  | No_community_column
  | Selected_node_not_found cell

text \<open>
  A select box returns one of its options, and \<^verbatim>\<open>None\<close> when it has no option. The user's
  pick is a position in the list of options (the first option is the default); a position
  past the end stands for the last option, so that every pick is one the widget can return.
\<close>

definition selectbox :: "'a list \<Rightarrow> nat \<Rightarrow> 'a option" where
  "selectbox opts k = (if opts = [] then None else Some (opts ! min k (length opts - 1)))"

record ui =
  radio_filter_mode :: filter_mode
  selectbox_community :: nat
  selectbox_node :: nat
  radio_connection_depth :: nat
  checkbox_include_external :: bool
  multiselect_years :: "cell list"
  multiselect_teams :: "cell list"

subsection \<open>Lines 62 to 80: column names\<close>

text \<open>\<^verbatim>\<open>st.error\<close> followed by \<^verbatim>\<open>st.stop\<close> ends the script: the error is the result.\<close>

definition detect_edge_cols :: "string list \<Rightarrow> app_error + string \<times> string" where
  "detect_edge_cols cs =
     (if ''from'' \<in> set cs \<and> ''to'' \<in> set cs then Inr (''from'', ''to'')
      else if ''source'' \<in> set cs \<and> ''target'' \<in> set cs then Inr (''source'', ''target'')
      else Inl Edges_schema_error)"

definition detect_node_cols :: "string list \<Rightarrow> app_error + string \<times> string" where
  "detect_node_cols cs =
     (if ''coach_id'' \<in> set cs
      then Inr (''coach_id'', if ''coach'' \<in> set cs then ''coach'' else ''coach_id'')
      else if ''id'' \<in> set cs
      then Inr (''id'', if ''label'' \<in> set cs then ''label'' else ''id'')
      else Inl Nodes_schema_error)"

subsection \<open>Lines 96 to 147: the selection\<close>

definition communities :: "frame \<Rightarrow> cell list" where
  "communities nodes_df =
     py_sorted (filter (\<lambda>c. c \<noteq> StrC ''NA'')
                  (drop_duplicates (dropna (column nodes_df ''community''))))"

text \<open>
  \<^verbatim>\<open>nodes_df[nodes_df['community'] == selected_community][id_col].tolist()\<close>; the
  comparison of a \<^verbatim>\<open>NaN\<close> cell is false.
\<close>

definition community_members :: "frame \<Rightarrow> string \<Rightarrow> cell \<Rightarrow> cell list" where
  "community_members nodes_df id_col selected_community =
     map (\<lambda>r. cell_at r id_col)
       (filter (\<lambda>r. cell_at r ''community'' \<noteq> NaN \<and> selected_community \<noteq> NaN \<and>
                     cell_at r ''community'' = selected_community)
          (content nodes_df))"

text \<open>
  Lines 122 to 128: the ids of the nodes table, one label for every row, and the dictionary
  from labels to ids. In a dictionary built from a list of pairs the last pair of a key
  gives its value. The labels are the options of the select box and the keys of the
  dictionary, nothing else.
\<close>

definition node_labels :: "frame \<Rightarrow> string \<Rightarrow> string \<Rightarrow> string list" where
  "node_labels nodes_df id_col label_col =
     (if label_col \<in> set (columns nodes_df)
      then map (\<lambda>r. py_str (cell_at r label_col) @ '' (ID: '' @ py_str (cell_at r id_col) @ '')'')
             (content nodes_df)
      else map py_str (column nodes_df id_col))"

definition node_lookup :: "frame \<Rightarrow> string \<Rightarrow> string \<Rightarrow> string \<Rightarrow> cell option" where
  "node_lookup nodes_df id_col label_col =
     map_of (rev (zip (node_labels nodes_df id_col label_col) (column nodes_df id_col)))"

text \<open>
  The state after line 147: the mode in force (Community falls back to Individual Node
  when the nodes table has no usable community column), the selected node or the community's
  nodes, and the warnings shown so far. In Individual Node mode the selected node is
  \<^verbatim>\<open>node_lookup[selected_label]\<close>: on a nodes table without rows the select box returns
  \<^verbatim>\<open>None\<close>, which is no key of the dictionary, and line 135 raises \<^verbatim>\<open>KeyError\<close>.
\<close>

record selection =
  filter_mode :: filter_mode
  selected_node :: "cell option"
  community_nodes :: "cell list option"
  connection_depth :: "nat option"
  warnings :: "warning list"

definition select_individual :: "frame \<Rightarrow> string \<Rightarrow> string \<Rightarrow> ui \<Rightarrow> warning list
                                   \<Rightarrow> app_error + selection" where
  "select_individual nodes_df id_col label_col u ws =
     (case selectbox (node_labels nodes_df id_col label_col) (selectbox_node u) of
        None \<Rightarrow> Inl Key_error
      | Some selected_label \<Rightarrow>
          (case node_lookup nodes_df id_col label_col selected_label of
             None \<Rightarrow> Inl Key_error
           | Some node \<Rightarrow>
               Inr \<lparr> filter_mode = Individual_Node, selected_node = Some node,
                     community_nodes = None,
                     connection_depth = Some (radio_connection_depth u),
                     warnings = ws \<rparr>))"

definition select :: "frame \<Rightarrow> string \<Rightarrow> string \<Rightarrow> ui \<Rightarrow> app_error + selection" where
  "select nodes_df id_col label_col u =
     (case radio_filter_mode u of
        Community \<Rightarrow>
          (if ''community'' \<in> set (columns nodes_df) then
             (if length (communities nodes_df) > 0 then
                Inr \<lparr> filter_mode = Community, selected_node = None,
                      community_nodes =
                        Some (case selectbox (communities nodes_df) (selectbox_community u) of
                                None \<Rightarrow> []
                              | Some selected_community \<Rightarrow>
                                  community_members nodes_df id_col selected_community),
                      connection_depth = None, warnings = [] \<rparr>
              else select_individual nodes_df id_col label_col u [No_valid_communities])
           else select_individual nodes_df id_col label_col u [No_community_column])
      | Individual_Node \<Rightarrow> select_individual nodes_df id_col label_col u [])"

subsection \<open>Line 153: the full graph\<close>

text \<open>
  \<^verbatim>\<open>nx.from_pandas_edgelist(edges_df, source_col, target_col, edge_attr=True,
  create_using=nx.DiGraph())\<close>. With \<^verbatim>\<open>edge_attr=True\<close> the edge attributes are the
  columns other than the two endpoint columns, and networkx raises \<^verbatim>\<open>NetworkXError\<close>
  when there is none. Otherwise the graph has one directed edge for every row of the edges
  table; its nodes are the endpoints of its edges (\<^verbatim>\<open>set_node_attributes\<close> adds no node).
\<close>

type_synonym digraph = "(cell \<times> cell) list"

definition from_pandas_edgelist :: "frame \<Rightarrow> string \<Rightarrow> string \<Rightarrow> app_error + digraph" where
  "from_pandas_edgelist edges_df source_col target_col =
     (let attr_col_headings = filter (\<lambda>c. c \<notin> set [source_col, target_col]) (columns edges_df)
      in if length attr_col_headings = 0 then Inl Networkx_error
         else Inr (map (\<lambda>r. (cell_at r source_col, cell_at r target_col)) (content edges_df)))"

definition graph_nodes :: "digraph \<Rightarrow> cell set" where
  "graph_nodes g = set (map fst g) \<union> set (map snd g)"

definition successors :: "digraph \<Rightarrow> cell \<Rightarrow> cell set" where
  "successors g n = set (map snd (filter (\<lambda>e. fst e = n) g))"

definition predecessors :: "digraph \<Rightarrow> cell \<Rightarrow> cell set" where
  "predecessors g n = set (map fst (filter (\<lambda>e. snd e = n) g))"

subsection \<open>Lines 172 to 212: the selected nodes\<close>

definition connected_nodes :: "digraph \<Rightarrow> selection \<Rightarrow> ui \<Rightarrow> cell set \<times> warning list" where
  "connected_nodes G_full sel u =
     (if filter_mode sel = Individual_Node \<and>
         (case selected_node sel of None \<Rightarrow> False | Some n \<Rightarrow> n \<in> graph_nodes G_full)
      then
        (case selected_node sel of
           None \<Rightarrow> ({}, [])
         | Some n \<Rightarrow>
             (if connection_depth sel = Some 1 then
                ({n} \<union> successors G_full n \<union> predecessors G_full n, [])
              else
                (let first_hop = successors G_full n \<union> predecessors G_full n
                 in ({n} \<union> first_hop \<union>
                      (\<Union>node\<in>first_hop. successors G_full node \<union> predecessors G_full node),
                     []))))
      else if filter_mode sel = Community \<and>
              (case community_nodes sel of None \<Rightarrow> False | Some ns \<Rightarrow> ns \<noteq> [])
      then
        (case community_nodes sel of
           None \<Rightarrow> ({}, [])
         | Some ns \<Rightarrow>
             (if checkbox_include_external u then
                (fold (\<lambda>node acc.
                         if node \<in> graph_nodes G_full
                         then acc \<union> successors G_full node \<union> predecessors G_full node
                         else acc) ns (set ns), [])
              else (set ns, [])))
      else
        (graph_nodes G_full,
         if filter_mode sel = Individual_Node
         then (case selected_node sel of None \<Rightarrow> [] | Some n \<Rightarrow> [Selected_node_not_found n])
         else []))"

subsection \<open>Lines 216 to 251: facet filters and the recomputed node set\<close>

definition restrict_to_nodes :: "frame \<Rightarrow> string \<Rightarrow> string \<Rightarrow> cell set \<Rightarrow> frame" where
  "restrict_to_nodes edges_df source_col target_col cn =
     edges_df \<lparr> content := filter (\<lambda>r. cell_at r source_col \<in> cn \<and> cell_at r target_col \<in> cn)
                                (content edges_df) \<rparr>"

text \<open>
  One facet (\<^verbatim>\<open>'year'\<close> or \<^verbatim>\<open>'team'\<close>): the multiselect is shown when the column
  exists and has a value in the current edges; its result filters the edges when it is not
  empty. The result is the selection (\<open>None\<close> while the widget is not shown) and the edges.
\<close>

definition facet_options :: "string \<Rightarrow> frame \<Rightarrow> cell list" where
  "facet_options col filtered_edges =
     py_sorted (drop_duplicates (dropna (column filtered_edges col)))"

definition facet :: "string \<Rightarrow> cell list \<Rightarrow> frame \<Rightarrow> cell list option \<times> frame" where
  "facet col picked filtered_edges =
     (if col \<in> set (columns filtered_edges) \<and> length (facet_options col filtered_edges) > 0
      then (Some picked,
            if picked \<noteq> [] then
              filtered_edges \<lparr> content := filter (\<lambda>r. cell_at r col \<in> set picked)
                                              (content filtered_edges) \<rparr>
            else filtered_edges)
      else (None, filtered_edges))"

text \<open>The truth value of \<^verbatim>\<open>selected_years\<close> in \<^verbatim>\<open>if selected_years:\<close>.\<close>

definition truthy :: "cell list option \<Rightarrow> bool" where
  "truthy sel = (case sel of None \<Rightarrow> False | Some xs \<Rightarrow> xs \<noteq> [])"

definition nodes_in_edges :: "frame \<Rightarrow> string \<Rightarrow> string \<Rightarrow> cell set" where
  "nodes_in_edges edges_df source_col target_col =
     set (column edges_df source_col) \<union> set (column edges_df target_col)"

text \<open>
  Lines 62 to 251 as a function of the two tables and of what the user does: the error that
  ends the script, or the state after line 251.
\<close>

record view =
  view_selection :: selection
  view_connected_nodes :: "cell set"
  view_warnings :: "warning list"
  selected_years :: "cell list option"
  selected_teams :: "cell list option"
  view_edges_df :: frame
  view_nodes_in_edges :: "cell set"
  view_nodes_df :: frame

definition resolve_view :: "frame \<Rightarrow> frame \<Rightarrow> ui \<Rightarrow> app_error + view" where
  "resolve_view nodes_df edges_df u =
     (case detect_edge_cols (columns edges_df) of
        Inl e \<Rightarrow> Inl e
      | Inr (source_col, target_col) \<Rightarrow>
     (case detect_node_cols (columns nodes_df) of
        Inl e \<Rightarrow> Inl e
      | Inr (id_col, label_col) \<Rightarrow>
     (case select nodes_df id_col label_col u of
        Inl e \<Rightarrow> Inl e
      | Inr sel \<Rightarrow>
     (case from_pandas_edgelist edges_df source_col target_col of
        Inl e \<Rightarrow> Inl e
      | Inr G_full \<Rightarrow>
     (let (cn, ws) = connected_nodes G_full sel u;
          filtered_edges = restrict_to_nodes edges_df source_col target_col cn;
          (ys, filtered_edges) = facet ''year'' (multiselect_years u) filtered_edges;
          (ts, filtered_edges) = facet ''team'' (multiselect_teams u) filtered_edges;
          nie = nodes_in_edges filtered_edges source_col target_col
      in Inr \<lparr> view_selection = sel, view_connected_nodes = cn,
               view_warnings = warnings sel @ ws,
               selected_years = ys, selected_teams = ts,
               view_edges_df = filtered_edges,
               view_nodes_in_edges = nie,
               view_nodes_df = nodes_df \<lparr> content := filter (\<lambda>r. cell_at r id_col \<in> nie)
                                                          (content nodes_df) \<rparr> \<rparr>)))))"

subsection \<open>Small tables\<close>

text \<open>
  A nodes table with four nodes in two communities. The graph \<open>A \<rightarrow> B\<close>, \<open>C \<rightarrow> A\<close>, the same
  graph with \<open>B \<rightarrow> D\<close>, and a graph whose edges carry years: \<open>A \<rightarrow> B\<close> and \<open>A \<rightarrow> C\<close> in 2000,
  \<open>B \<rightarrow> C\<close> in 2001. Every edges table has a column besides the two endpoints.
\<close>

definition ex_nodes_df :: frame where
  "ex_nodes_df = \<lparr> columns = [''id'', ''community''],
                   content = [[(''id'', StrC ''A''), (''community'', IntC 1)],
                              [(''id'', StrC ''B''), (''community'', IntC 1)],
                              [(''id'', StrC ''C''), (''community'', IntC 2)],
                              [(''id'', StrC ''D''), (''community'', IntC 2)]] \<rparr>"

definition ex_edges_df :: frame where
  "ex_edges_df = \<lparr> columns = [''from'', ''to'', ''connection_type''],
     content = [[(''from'', StrC ''A''), (''to'', StrC ''B''), (''connection_type'', StrC ''hierarchical'')],
                [(''from'', StrC ''C''), (''to'', StrC ''A''), (''connection_type'', StrC ''hierarchical'')]] \<rparr>"

definition ex_edges_df2 :: frame where
  "ex_edges_df2 = \<lparr> columns = [''from'', ''to'', ''connection_type''],
     content = [[(''from'', StrC ''A''), (''to'', StrC ''B''), (''connection_type'', StrC ''hierarchical'')],
                [(''from'', StrC ''C''), (''to'', StrC ''A''), (''connection_type'', StrC ''hierarchical'')],
                [(''from'', StrC ''B''), (''to'', StrC ''D''), (''connection_type'', StrC ''hierarchical'')]] \<rparr>"

definition ex_edges_years :: frame where
  "ex_edges_years = \<lparr> columns = [''source'', ''target'', ''year''],
     content = [[(''source'', StrC ''A''), (''target'', StrC ''B''), (''year'', IntC 2000)],
                [(''source'', StrC ''A''), (''target'', StrC ''C''), (''year'', IntC 2000)],
                [(''source'', StrC ''B''), (''target'', StrC ''C''), (''year'', IntC 2001)]] \<rparr>"

text \<open>
  Tables that carry both pairs of edge columns and both identity columns: one node,
  \<open>A\<close> by \<^verbatim>\<open>coach_id\<close> and \<open>X\<close> by \<^verbatim>\<open>id\<close>, and one edge, \<open>A \<rightarrow> B\<close> by \<^verbatim>\<open>from\<close>, \<^verbatim>\<open>to\<close>
  and \<open>X \<rightarrow> Y\<close> by \<^verbatim>\<open>source\<close>, \<^verbatim>\<open>target\<close>.
\<close>

definition ex_nodes_both :: frame where
  "ex_nodes_both = \<lparr> columns = [''coach_id'', ''id''],
                     content = [[(''coach_id'', StrC ''A''), (''id'', StrC ''X'')]] \<rparr>"

definition ex_edges_both :: frame where
  "ex_edges_both = \<lparr> columns = [''from'', ''to'', ''source'', ''target''],
     content = [[(''from'', StrC ''A''), (''to'', StrC ''B''),
                 (''source'', StrC ''X''), (''target'', StrC ''Y'')]] \<rparr>"

text \<open>
  The first node of the table (\<open>A\<close>) picked, depth 1, nothing picked in the multiselects;
  and the same with Community mode and the first community.
\<close>

definition ex_ui :: ui where
  "ex_ui = \<lparr> radio_filter_mode = Individual_Node, selectbox_community = 0,
             selectbox_node = 0, radio_connection_depth = 1,
             checkbox_include_external = False,
             multiselect_years = [], multiselect_teams = [] \<rparr>"

definition ex_ui_community :: ui where
  "ex_ui_community = ex_ui \<lparr> radio_filter_mode := Community \<rparr>"


section \<open>Properties of the Edge Builder\<close>

subsection \<open>The merge gives every row exactly one node number\<close>

lemma set_drop_duplicates: "set (drop_duplicates xs) = set xs"
  by (induction xs rule: drop_duplicates.induct) auto

lemma distinct_drop_duplicates: "distinct (drop_duplicates xs)"
  by (induction xs rule: drop_duplicates.induct) (auto simp: set_drop_duplicates)

lemma filter_zip_unique:
  "distinct xs \<Longrightarrow> x \<in> set xs \<Longrightarrow> length ys = length xs \<Longrightarrow>
   \<exists>i. filter (\<lambda>n. fst n = x) (zip xs ys) = [(x, i)]"
proof (induction xs arbitrary: ys)
  case Nil
  then show ?case by simp
next
  case (Cons a xs)
  then obtain b ys' where ys: "ys = b # ys'" by (cases ys) auto
  show ?case
  proof (cases "a = x")
    case True
    with Cons.prems have "x \<notin> set xs" by simp
    then have "filter (\<lambda>n. fst n = x) (zip xs ys') = []"
      by (auto simp: filter_empty_conv dest: set_zip_leftD)
    with True ys show ?thesis by simp
  next
    case False
    with Cons ys show ?thesis by auto
  qed
qed

lemma merge_row_single:
  assumes "r \<in> set df"
  shows "\<exists>i. merge_row (nodes df) r =
           [staff_row.extend r (df_row.fields (level (role_category r)) (Some i) (Name r))]"
proof -
  let ?names = "drop_duplicates (map Name df)"
  have "Name r \<in> set ?names" using assms by (simp add: set_drop_duplicates)
  then obtain i where "filter (\<lambda>n. fst n = Name r) (zip ?names (map Suc [0..<length ?names])) = [(Name r, i)]"
    using filter_zip_unique[OF distinct_drop_duplicates, of "Name r" "map Name df" "map Suc [0..<length ?names]"]
    by auto
  then show ?thesis by (auto simp: merge_row_def nodes_def Let_def)
qed

lemma with_id_simps:
  "Team (with_id r i) = Team r" "Year (with_id r i) = Year r"
  "role_category (with_id r i) = role_category r"
  "side_of_ball (with_id r i) = side_of_ball r"
  "hierarchy_level (with_id r i) = level (role_category r)"
  "coach_id (with_id r i) = Some i"
  by (simp_all add: with_id_def staff_row.defs df_row.defs)

lemma concat_map_single:
  "\<forall>x\<in>set xs. f x = [g x] \<Longrightarrow> concat (map f xs) = map g xs"
  by (induction xs) auto

lemma prepare_as_map:
  "\<exists>ids. prepare rows = map (\<lambda>r. with_id r (ids r)) (keep_allowed rows)"
proof -
  let ?df = "keep_allowed rows"
  have "\<forall>r\<in>set ?df. \<exists>i. merge_row (nodes ?df) r = [with_id r i]"
    using merge_row_single[of _ ?df] by (simp add: with_id_def)
  then obtain ids where "\<forall>r\<in>set ?df. merge_row (nodes ?df) r = [with_id r (ids r)]"
    using bchoice[of "set ?df" "\<lambda>r i. merge_row (nodes ?df) r = [with_id r i]"] by blast
  then have "concat (map (merge_row (nodes ?df)) ?df) = map (\<lambda>r. with_id r (ids r)) ?df"
    by (rule concat_map_single)
  then show ?thesis by (auto simp: prepare_def Let_def)
qed




lemma groupby_keys_distinct: "distinct (map fst (groupby df))"
  by (simp add: groupby_def group_keys_def comp_def)

lemma groupby_mem:
  "(k, g) \<in> set (groupby df) \<Longrightarrow> g = filter (\<lambda>r. group_key r = Some k) df"
  by (auto simp: groupby_def)



subsection \<open>Hierarchical edges\<close>










subsection \<open>Co-staff edges\<close>

lemma costaff_group_product:
  "costaff_group k g = map (\<lambda>(s, t). mk_costaff_edge k s t) (List.product g g)"
proof -
  have "\<And>h. concat (map (\<lambda>src. concat (map (\<lambda>tgt. [mk_costaff_edge k src tgt]) h)) g)
          = map (\<lambda>(s, t). mk_costaff_edge k s t) (List.product g h)"
    by (induction g) (auto simp: concat_map_singleton comp_def)
  then show ?thesis by (simp add: costaff_group_def)
qed

lemma index_in_square:
  fixes i j n :: nat
  assumes "j < n"
  shows "(i * n + j) div n = i \<and> (i * n + j) mod n = j"
proof -
  from assms have "n \<noteq> 0" by simp
  then have "(i * n + j) div n = i + j div n" by (rule div_mult_self3)
  with assms show ?thesis by simp
qed

lemma length_costaff_group: "length (costaff_group k g) = (length g)\<^sup>2"
  by (simp add: costaff_group_product power2_eq_square)

lemma costaff_group_nth:
  assumes "i < length g" and "j < length g"
  shows "costaff_group k g ! (i * length g + j) = mk_costaff_edge k (g ! i) (g ! j)"
proof -
  have "i * length g + j < length g * length g"
  proof -
    have "i * length g + j < i * length g + length g" using assms by simp
    also have "\<dots> = Suc i * length g" by simp
    also have "\<dots> \<le> length g * length g" using assms by (simp only: mult_le_mono1 Suc_leI)
    finally show ?thesis .
  qed
  moreover have "(i * length g + j) div length g = i" "(i * length g + j) mod length g = j"
    using assms index_in_square by blast+
  ultimately show ?thesis
    by (simp add: costaff_group_product product_nth)
qed

lemma mk_costaff_edge_key:
  "(team (mk_costaff_edge k s t), year (mk_costaff_edge k s t)) = k"
  by (simp add: mk_costaff_edge_def base_edge_def edge.defs costaff_edge.defs)

lemma filter_costaff_group:
  "filter (\<lambda>e. (team e, year e) = k) (costaff_group k' g) = (if k' = k then costaff_group k' g else [])"
  by (auto simp: costaff_group_product filter_map comp_def mk_costaff_edge_key split_def filter_empty_conv)

lemma concat_select_key:
  "distinct (map fst xs) \<Longrightarrow> (k, g) \<in> set xs \<Longrightarrow>
   concat (map (\<lambda>(k', g'). if k' = k then f k' g' else []) xs) = f k g"
proof (induction xs)
  case Nil
  then show ?case by simp
next
  case (Cons x xs)
  obtain k' g' where x: "x = (k', g')" by (cases x)
  show ?case
  proof (cases "k' = k")
    case True
    with Cons.prems x have "g' = g" by (auto simp: image_iff)
    moreover have "concat (map (\<lambda>(k', g'). if k' = k then f k' g' else []) xs) = []"
      using Cons.prems x True by (force simp: image_iff)
    ultimately show ?thesis using x True by simp
  next
    case False
    with Cons x show ?thesis by auto
  qed
qed

lemma filter_costaff_edges:
  assumes "(k, g) \<in> set (groupby df)"
  shows "filter (\<lambda>e. (team e, year e) = k) (costaff_edges df) = costaff_group k g"
proof -
  have "filter (\<lambda>e. (team e, year e) = k) (costaff_edges df)
      = concat (map (\<lambda>(k', g'). if k' = k then costaff_group k' g' else []) (groupby df))"
    by (simp add: costaff_edges_def filter_concat comp_def split_def filter_costaff_group)
  then show ?thesis
    using concat_select_key[OF groupby_keys_distinct assms, of costaff_group] by simp
qed

lemma group_length:
  assumes "(k, g) \<in> set (groupby (prepare rows))"
  shows "length g = length (filter (\<lambda>r. isin (role_category r) allowed_roles \<and>
                                       Team r = Some (fst k) \<and> Year r = Some (snd k)) rows)"
proof -
  obtain ids where p: "prepare rows = map (\<lambda>r. with_id r (ids r)) (keep_allowed rows)"
    using prepare_as_map by blast
  have key: "\<And>r i. group_key (with_id r i) = Some k \<longleftrightarrow> Team r = Some (fst k) \<and> Year r = Some (snd k)"
    by (cases k) (auto simp: group_key_def with_id_simps split: option.splits)
  have "g = filter (\<lambda>r. group_key r = Some k) (prepare rows)"
    using assms by (rule groupby_mem)
  then have "length g = length (filter (\<lambda>r. Team r = Some (fst k) \<and> Year r = Some (snd k)) (keep_allowed rows))"
    by (simp add: p filter_map comp_def key)
  also have "\<dots> = length (filter (\<lambda>r. isin (role_category r) allowed_roles \<and>
                                       Team r = Some (fst k) \<and> Year r = Some (snd k)) rows)"
    by (simp add: keep_allowed_def conj_commute)
  finally show ?thesis .
qed

text \<open>
  Claim C2. For a team-season group \<open>g\<close> with key \<open>k\<close>, the co-staff edges of that team and
  year are exactly the edges of the group's double loop; there are \<open>(length g)\<^sup>2\<close> of them, where
  \<open>length g\<close> is the number of roster rows of that team and year with an allowed role
  category; the edge at position \<open>i * length g + j\<close> is the one of the ordered pair of rows
  \<open>i\<close> and \<open>j\<close>, whatever their levels and sides; and the pair of a row with itself is among
  them.
\<close>

theorem costaff_edges_all_pairs:
  assumes "(k, g) \<in> set (groupby (prepare rows))"
  shows "filter (\<lambda>e. (team e, year e) = k) (costaff_edges (prepare rows)) = costaff_group k g \<and>
         length (costaff_group k g) = (length g)\<^sup>2 \<and>
         length g = length (filter (\<lambda>r. isin (role_category r) allowed_roles \<and>
                                        Team r = Some (fst k) \<and> Year r = Some (snd k)) rows) \<and>
         (\<forall>i<length g. \<forall>j<length g.
            costaff_group k g ! (i * length g + j) = mk_costaff_edge k (g ! i) (g ! j)) \<and>
         (\<forall>i<length g. costaff_group k g ! (i * length g + i) = mk_costaff_edge k (g ! i) (g ! i))"
proof (intro conjI)
  show "filter (\<lambda>e. (team e, year e) = k) (costaff_edges (prepare rows)) = costaff_group k g"
    using assms by (rule filter_costaff_edges)
  show "length (costaff_group k g) = (length g)\<^sup>2"
    by (rule length_costaff_group)
  show "length g = length (filter (\<lambda>r. isin (role_category r) allowed_roles \<and>
                                        Team r = Some (fst k) \<and> Year r = Some (snd k)) rows)"
    using assms by (rule group_length)
  show "\<forall>i<length g. \<forall>j<length g.
            costaff_group k g ! (i * length g + j) = mk_costaff_edge k (g ! i) (g ! j)"
    using costaff_group_nth by blast
  show "\<forall>i<length g. costaff_group k g ! (i * length g + i) = mk_costaff_edge k (g ! i) (g ! i)"
    using costaff_group_nth by blast
qed

theorem costaff_edges_all_pairs_witness:
  "((''CHI'', 2020), prepare ex_roster) \<in> set (groupby (prepare ex_roster)) \<and>
   length (filter (\<lambda>e. (team e, year e) = (''CHI'', 2020)) (costaff_edges (prepare ex_roster))) = 9"
proof -
  have g: "((''CHI'', 2020), prepare ex_roster) \<in> set (groupby (prepare ex_roster))"
    by code_simp
  have n: "length (prepare ex_roster) = 3" by code_simp
  from costaff_edges_all_pairs[OF g] n g show ?thesis by simp
qed

subsection \<open>Rows with missing fields\<close>












section \<open>Properties of the query and filter engine\<close>

subsection \<open>The fields of the computed view\<close>

lemma resolve_view_fields:
  assumes r: "resolve_view nodes_df edges_df u = Inr v"
    and e: "detect_edge_cols (columns edges_df) = Inr (s, t)"
    and n: "detect_node_cols (columns nodes_df) = Inr (i, l)"
    and sl: "select nodes_df i l u = Inr sel"
    and gr: "from_pandas_edgelist edges_df s t = Inr G"
  shows "view_selection v = sel"
    and "view_connected_nodes v = fst (connected_nodes G sel u)"
    and "view_warnings v = warnings sel @ snd (connected_nodes G sel u)"
    and "selected_years v =
           fst (facet ''year'' (multiselect_years u)
                  (restrict_to_nodes edges_df s t (view_connected_nodes v)))"
    and "selected_teams v =
           fst (facet ''team'' (multiselect_teams u)
                  (snd (facet ''year'' (multiselect_years u)
                     (restrict_to_nodes edges_df s t (view_connected_nodes v)))))"
    and "view_edges_df v =
           snd (facet ''team'' (multiselect_teams u)
                  (snd (facet ''year'' (multiselect_years u)
                     (restrict_to_nodes edges_df s t (view_connected_nodes v)))))"
    and "view_nodes_in_edges v = nodes_in_edges (view_edges_df v) s t"
    and "view_nodes_df v = nodes_df \<lparr> content := filter (\<lambda>r. cell_at r i \<in> view_nodes_in_edges v)
                                                       (content nodes_df) \<rparr>"
  using r by (auto simp: resolve_view_def e n sl gr Let_def split_def)

lemma resolve_view_total:
  assumes "detect_edge_cols (columns edges_df) = Inr (s, t)"
    and "detect_node_cols (columns nodes_df) = Inr (i, l)"
    and "select nodes_df i l u = Inr sel"
    and "from_pandas_edgelist edges_df s t = Inr G"
  shows "\<exists>v. resolve_view nodes_df edges_df u = Inr v"
  by (simp add: resolve_view_def assms Let_def split_def)

lemma resolve_view_Inr_cols:
  assumes "resolve_view nodes_df edges_df u = Inr v"
  shows "\<exists>s t i l. detect_edge_cols (columns edges_df) = Inr (s, t) \<and>
                   detect_node_cols (columns nodes_df) = Inr (i, l)"
  using assms unfolding resolve_view_def
  by (auto split: sum.splits)

lemma resolve_view_Inr_parts:
  assumes r: "resolve_view nodes_df edges_df u = Inr v"
    and e: "detect_edge_cols (columns edges_df) = Inr (s, t)"
  shows "\<exists>i l sel G. detect_node_cols (columns nodes_df) = Inr (i, l) \<and>
                     select nodes_df i l u = Inr sel \<and>
                     from_pandas_edgelist edges_df s t = Inr G"
  using r unfolding resolve_view_def e
  by (auto split: sum.splits)

lemma facet_snd_content:
  "content (snd (facet col picked fe)) =
     (if truthy (fst (facet col picked fe))
      then filter (\<lambda>r. cell_at r col \<in> set picked) (content fe) else content fe)"
  by (simp add: facet_def truthy_def)

lemma facet_columns: "columns (snd (facet col picked fe)) = columns fe"
  by (simp add: facet_def)

lemma facet_empty: "snd (facet col [] fe) = fe"
  by (simp add: facet_def)

lemma truthy_facet:
  "truthy (fst (facet col picked fe)) \<longleftrightarrow>
     col \<in> set (columns fe) \<and> dropna (column fe col) \<noteq> [] \<and> picked \<noteq> []"
proof -
  have "length (facet_options col fe) > 0 \<longleftrightarrow> dropna (column fe col) \<noteq> []"
    unfolding facet_options_def py_sorted_def
    by (cases "dropna (column fe col)") simp_all
  then show ?thesis by (auto simp: facet_def truthy_def)
qed

lemma nodes_in_edges_image:
  "nodes_in_edges fe s t = (\<lambda>r. cell_at r s) ` set (content fe) \<union> (\<lambda>r. cell_at r t) ` set (content fe)"
  by (simp add: nodes_in_edges_def column_def)

lemma restrict_content:
  "content (restrict_to_nodes e s t cn) = filter (\<lambda>r. cell_at r s \<in> cn \<and> cell_at r t \<in> cn) (content e)"
  by (simp add: restrict_to_nodes_def)


subsection \<open>Facet filters\<close>




text \<open>
  Claim C10. With nothing picked in the year multiselect the year step leaves the edges as
  they are, and likewise for the team; with nothing picked in either, the edges of the view are
  all edges between selected nodes. A facet filters only when its widget is shown and its
  selection is not empty.
\<close>

theorem empty_facet_selection_passes_through:
  assumes r: "resolve_view nodes_df edges_df u = Inr v"
    and e: "detect_edge_cols (columns edges_df) = Inr (s, t)"
  shows "(multiselect_years u = [] \<longrightarrow>
            view_edges_df v = snd (facet ''team'' (multiselect_teams u)
                                     (restrict_to_nodes edges_df s t (view_connected_nodes v)))) \<and>
         (multiselect_teams u = [] \<longrightarrow>
            view_edges_df v = snd (facet ''year'' (multiselect_years u)
                                     (restrict_to_nodes edges_df s t (view_connected_nodes v)))) \<and>
         (multiselect_years u = [] \<and> multiselect_teams u = [] \<longrightarrow>
            view_edges_df v = restrict_to_nodes edges_df s t (view_connected_nodes v)) \<and>
         (\<forall>col fe. snd (facet col [] fe) = fe) \<and>
         (\<forall>col picked fe. picked \<noteq> [] \<and> fst (facet col picked fe) \<noteq> None \<longrightarrow>
            content (snd (facet col picked fe)) =
              filter (\<lambda>r. cell_at r col \<in> set picked) (content fe))"
proof -
  obtain i l sel G where n: "detect_node_cols (columns nodes_df) = Inr (i, l)"
    and sl: "select nodes_df i l u = Inr sel"
    and gr: "from_pandas_edgelist edges_df s t = Inr G"
    using resolve_view_Inr_parts[OF r e] by blast
  note f = resolve_view_fields(6)[OF r e n sl gr]
  have 1: "multiselect_years u = [] \<longrightarrow>
            view_edges_df v = snd (facet ''team'' (multiselect_teams u)
                                     (restrict_to_nodes edges_df s t (view_connected_nodes v)))"
    using f by (simp add: facet_empty)
  have 2: "multiselect_teams u = [] \<longrightarrow>
            view_edges_df v = snd (facet ''year'' (multiselect_years u)
                                     (restrict_to_nodes edges_df s t (view_connected_nodes v)))"
    using f by (simp add: facet_empty)
  have 3: "multiselect_years u = [] \<and> multiselect_teams u = [] \<longrightarrow>
            view_edges_df v = restrict_to_nodes edges_df s t (view_connected_nodes v)"
    using f by (simp add: facet_empty)
  have 4: "\<forall>col fe. snd (facet col [] fe) = fe" by (simp add: facet_empty)
  have 5: "\<forall>col picked fe. picked \<noteq> [] \<and> fst (facet col picked fe) \<noteq> None \<longrightarrow>
            content (snd (facet col picked fe)) =
              filter (\<lambda>r. cell_at r col \<in> set picked) (content fe)"
    by (simp add: facet_def)
  from 1 2 3 4 5 show ?thesis by (intro conjI)
qed

theorem empty_facet_selection_passes_through_witness:
  "resolve_view ex_nodes_df ex_edges_years ex_ui
     = Inr (projr (resolve_view ex_nodes_df ex_edges_years ex_ui)) \<and>
   detect_edge_cols (columns ex_edges_years) = Inr (''source'', ''target'') \<and>
   multiselect_years ex_ui = [] \<and> multiselect_teams ex_ui = [] \<and>
   fst (facet ''year'' [] ex_edges_years) = Some [] \<and>
   view_edges_df (projr (resolve_view ex_nodes_df ex_edges_years ex_ui)) = ex_edges_years"
proof -
  let ?v = "projr (resolve_view ex_nodes_df ex_edges_years ex_ui)"
  have "\<not> isl (resolve_view ex_nodes_df ex_edges_years ex_ui)" by code_simp
  then have r: "resolve_view ex_nodes_df ex_edges_years ex_ui = Inr ?v" by simp
  have e: "detect_edge_cols (columns ex_edges_years) = Inr (''source'', ''target'')"
    by (simp add: detect_edge_cols_def ex_edges_years_def)
  have m: "multiselect_years ex_ui = []" "multiselect_teams ex_ui = []"
    by (simp_all add: ex_ui_def)
  have sh: "fst (facet ''year'' [] ex_edges_years) = Some []" by code_simp
  have rs: "restrict_to_nodes ex_edges_years ''source'' ''target'' (view_connected_nodes ?v)
              = ex_edges_years"
    by code_simp
  from empty_facet_selection_passes_through[OF r e] m
  have "view_edges_df ?v = restrict_to_nodes ex_edges_years ''source'' ''target'' (view_connected_nodes ?v)"
    by blast
  with rs have "view_edges_df ?v = ex_edges_years" by simp
  with r e m sh show ?thesis by (intro conjI)
qed

subsection \<open>A year selection that leaves no edge of the focal node\<close>

lemma view_edges_content:
  assumes r: "resolve_view nodes_df edges_df u = Inr v"
    and e: "detect_edge_cols (columns edges_df) = Inr (s, t)"
  shows "content (view_edges_df v) =
           filter (\<lambda>r. (cell_at r s \<in> view_connected_nodes v \<and> cell_at r t \<in> view_connected_nodes v) \<and>
                        (truthy (selected_years v) \<longrightarrow> cell_at r ''year'' \<in> set (multiselect_years u)) \<and>
                        (truthy (selected_teams v) \<longrightarrow> cell_at r ''team'' \<in> set (multiselect_teams u)))
                  (content edges_df)"
proof -
  obtain i l sel G where n: "detect_node_cols (columns nodes_df) = Inr (i, l)"
    and sl: "select nodes_df i l u = Inr sel"
    and gr: "from_pandas_edgelist edges_df s t = Inr G"
    using resolve_view_Inr_parts[OF r e] by blast
  note f = resolve_view_fields[OF r e n sl gr]
  let ?e0 = "restrict_to_nodes edges_df s t (view_connected_nodes v)"
  let ?e1 = "snd (facet ''year'' (multiselect_years u) ?e0)"
  have c1: "content ?e1 = filter (\<lambda>r. truthy (selected_years v) \<longrightarrow> cell_at r ''year'' \<in> set (multiselect_years u))
                            (content ?e0)"
    unfolding facet_snd_content f(4)[symmetric] by simp
  have c2: "content (view_edges_df v) =
              filter (\<lambda>r. truthy (selected_teams v) \<longrightarrow> cell_at r ''team'' \<in> set (multiselect_teams u))
                (content ?e1)"
    unfolding f(6) facet_snd_content f(5)[symmetric] by simp
  show ?thesis
    unfolding c2 c1 restrict_content filter_filter by (rule filter_cong) auto
qed

lemma view_nodes_image:
  assumes r: "resolve_view nodes_df edges_df u = Inr v"
    and e: "detect_edge_cols (columns edges_df) = Inr (s, t)"
  shows "view_nodes_in_edges v =
           (\<lambda>r. cell_at r s) ` set (content (view_edges_df v)) \<union>
           (\<lambda>r. cell_at r t) ` set (content (view_edges_df v))"
proof -
  obtain i l sel G where n: "detect_node_cols (columns nodes_df) = Inr (i, l)"
    and sl: "select nodes_df i l u = Inr sel"
    and gr: "from_pandas_edgelist edges_df s t = Inr G"
    using resolve_view_Inr_parts[OF r e] by blast
  show ?thesis
    unfolding resolve_view_fields(7)[OF r e n sl gr] by (rule nodes_in_edges_image)
qed


text \<open>
  Claim C9, as the code has it. When the year selection is in force (the widget is shown and
  something is picked) and no edge of the table that touches a node \<open>f\<close> has a picked year,
  \<open>f\<close> is not in the recomputed node set; for the focal node of an Individual Node view this
  is the node that was selected. The recomputed node set is empty exactly when no edge is
  left.
\<close>

theorem focal_node_filtered_out:
  assumes r: "resolve_view nodes_df edges_df u = Inr v"
    and e: "detect_edge_cols (columns edges_df) = Inr (s, t)"
    and y: "truthy (selected_years v)"
    and x: "\<forall>r\<in>set (content edges_df).
              cell_at r s = f \<or> cell_at r t = f \<longrightarrow> cell_at r ''year'' \<notin> set (multiselect_years u)"
  shows "f \<notin> view_nodes_in_edges v \<and>
         (view_nodes_in_edges v = {} \<longleftrightarrow> content (view_edges_df v) = [])"
proof
  have "\<forall>r\<in>set (content (view_edges_df v)). cell_at r s \<noteq> f \<and> cell_at r t \<noteq> f"
    unfolding view_edges_content[OF r e] using x y by auto
  then show "f \<notin> view_nodes_in_edges v"
    unfolding view_nodes_image[OF r e] by auto
  show "view_nodes_in_edges v = {} \<longleftrightarrow> content (view_edges_df v) = []"
    unfolding view_nodes_image[OF r e] by auto
qed

theorem focal_node_filtered_out_witness:
  "resolve_view ex_nodes_df ex_edges_years (ex_ui \<lparr> multiselect_years := [IntC 2001] \<rparr>)
     = Inr (projr (resolve_view ex_nodes_df ex_edges_years (ex_ui \<lparr> multiselect_years := [IntC 2001] \<rparr>))) \<and>
   detect_edge_cols (columns ex_edges_years) = Inr (''source'', ''target'') \<and>
   truthy (selected_years
      (projr (resolve_view ex_nodes_df ex_edges_years (ex_ui \<lparr> multiselect_years := [IntC 2001] \<rparr>)))) \<and>
   selected_node (view_selection
      (projr (resolve_view ex_nodes_df ex_edges_years (ex_ui \<lparr> multiselect_years := [IntC 2001] \<rparr>))))
     = Some (StrC ''A'') \<and>
   StrC ''A'' \<notin> view_nodes_in_edges
      (projr (resolve_view ex_nodes_df ex_edges_years (ex_ui \<lparr> multiselect_years := [IntC 2001] \<rparr>)))"
proof -
  let ?u = "ex_ui \<lparr> multiselect_years := [IntC 2001] \<rparr>"
  let ?v = "projr (resolve_view ex_nodes_df ex_edges_years ?u)"
  have "\<not> isl (resolve_view ex_nodes_df ex_edges_years ?u)" by code_simp
  then have r: "resolve_view ex_nodes_df ex_edges_years ?u = Inr ?v" by simp
  have e: "detect_edge_cols (columns ex_edges_years) = Inr (''source'', ''target'')"
    by (simp add: detect_edge_cols_def ex_edges_years_def)
  have y: "truthy (selected_years ?v)" by code_simp
  have a: "selected_node (view_selection ?v) = Some (StrC ''A'')" by code_simp
  have x: "\<forall>r\<in>set (content ex_edges_years).
              cell_at r ''source'' = StrC ''A'' \<or> cell_at r ''target'' = StrC ''A''
                \<longrightarrow> cell_at r ''year'' \<notin> set (multiselect_years ?u)"
    by (simp add: ex_edges_years_def cell_at_def ex_ui_def)
  from focal_node_filtered_out[OF r e y x] have "StrC ''A'' \<notin> view_nodes_in_edges ?v" by blast
  with r e y a show ?thesis by (intro conjI)
qed


text \<open>
  Claim C9 as stated fails. Focal node \<open>A\<close>, depth 1, edges \<open>A \<rightarrow> B\<close> and \<open>A \<rightarrow> C\<close> in 2000 and
  \<open>B \<rightarrow> C\<close> in 2001, year 2001 picked: every edge touching \<open>A\<close> is excluded, yet the edge
  between its two neighbours is left and the recomputed node set is \<open>{B, C}\<close>, not empty.
\<close>

theorem year_facet_empty_node_set_counterexample:
  "\<not> isl (resolve_view ex_nodes_df ex_edges_years (ex_ui \<lparr> multiselect_years := [IntC 2001] \<rparr>)) \<and>
   selected_node (view_selection
      (projr (resolve_view ex_nodes_df ex_edges_years (ex_ui \<lparr> multiselect_years := [IntC 2001] \<rparr>))))
     = Some (StrC ''A'') \<and>
   content (view_edges_df
      (projr (resolve_view ex_nodes_df ex_edges_years (ex_ui \<lparr> multiselect_years := [IntC 2001] \<rparr>))))
     = [[(''source'', StrC ''B''), (''target'', StrC ''C''), (''year'', IntC 2001)]] \<and>
   view_nodes_in_edges
      (projr (resolve_view ex_nodes_df ex_edges_years (ex_ui \<lparr> multiselect_years := [IntC 2001] \<rparr>)))
     = {StrC ''B'', StrC ''C''} \<and>
   view_nodes_in_edges
      (projr (resolve_view ex_nodes_df ex_edges_years (ex_ui \<lparr> multiselect_years := [IntC 2001] \<rparr>)))
     \<noteq> {} \<and>
   column ex_edges_years ''source'' = [StrC ''A'', StrC ''A'', StrC ''B''] \<and>
   column ex_edges_years ''target'' = [StrC ''B'', StrC ''C'', StrC ''C''] \<and>
   column ex_edges_years ''year'' = [IntC 2000, IntC 2000, IntC 2001]"
proof -
  let ?u = "ex_ui \<lparr> multiselect_years := [IntC 2001] \<rparr>"
  let ?v = "projr (resolve_view ex_nodes_df ex_edges_years ?u)"
  have 1: "\<not> isl (resolve_view ex_nodes_df ex_edges_years ?u)" by code_simp
  have 2: "selected_node (view_selection ?v) = Some (StrC ''A'')" by code_simp
  have 3: "content (view_edges_df ?v)
              = [[(''source'', StrC ''B''), (''target'', StrC ''C''), (''year'', IntC 2001)]]"
    by code_simp
  have 4: "view_nodes_in_edges ?v = {StrC ''B'', StrC ''C''}" by code_simp
  from 4 have 5: "view_nodes_in_edges ?v \<noteq> {}" by simp
  have 6: "column ex_edges_years ''source'' = [StrC ''A'', StrC ''A'', StrC ''B'']"
    "column ex_edges_years ''target'' = [StrC ''B'', StrC ''C'', StrC ''C'']"
    "column ex_edges_years ''year'' = [IntC 2000, IntC 2000, IntC 2001]"
    by (simp_all add: column_def ex_edges_years_def cell_at_def)
  from 1 2 3 4 5 6 show ?thesis by (intro conjI)
qed


subsection \<open>Column names\<close>

lemma detect_edge_cols_Inl:
  "detect_edge_cols cs = Inl x \<longleftrightarrow>
     x = Edges_schema_error \<and> \<not> (''from'' \<in> set cs \<and> ''to'' \<in> set cs) \<and>
     \<not> (''source'' \<in> set cs \<and> ''target'' \<in> set cs)"
  by (auto simp: detect_edge_cols_def)

lemma detect_node_cols_Inl:
  "detect_node_cols cs = Inl x \<longleftrightarrow>
     x = Nodes_schema_error \<and> ''coach_id'' \<notin> set cs \<and> ''id'' \<notin> set cs"
  by (auto simp: detect_node_cols_def)

lemma select_individual_Inl:
  "select_individual nodes_df i l u ws = Inl x \<Longrightarrow> x = Key_error"
  by (auto simp: select_individual_def split: option.splits)

lemma select_Inl: "select nodes_df i l u = Inl x \<Longrightarrow> x = Key_error"
  by (auto simp: select_def dest: select_individual_Inl split: filter_mode.splits if_splits)

lemma from_pandas_edgelist_Inl: "from_pandas_edgelist edges_df s t = Inl x \<Longrightarrow> x = Networkx_error"
  by (auto simp: from_pandas_edgelist_def Let_def split: if_splits)

lemma resolve_view_Inl:
  "resolve_view nodes_df edges_df u = Inl x \<longleftrightarrow>
     detect_edge_cols (columns edges_df) = Inl x \<or>
     (\<exists>s t. detect_edge_cols (columns edges_df) = Inr (s, t) \<and>
        (detect_node_cols (columns nodes_df) = Inl x \<or>
         (\<exists>i l. detect_node_cols (columns nodes_df) = Inr (i, l) \<and>
            (select nodes_df i l u = Inl x \<or>
             (\<exists>sel. select nodes_df i l u = Inr sel) \<and>
               from_pandas_edgelist edges_df s t = Inl x))))"
  unfolding resolve_view_def
  by (auto simp: Let_def split_def split: sum.splits)

lemma resolve_view_schema_error:
  assumes "x = Edges_schema_error \<or> x = Nodes_schema_error"
  shows "resolve_view nodes_df edges_df u = Inl x \<longleftrightarrow>
     detect_edge_cols (columns edges_df) = Inl x \<or>
     (\<exists>p. detect_edge_cols (columns edges_df) = Inr p) \<and>
       detect_node_cols (columns nodes_df) = Inl x"
proof
  assume "resolve_view nodes_df edges_df u = Inl x"
  then consider "detect_edge_cols (columns edges_df) = Inl x"
    | s t where "detect_edge_cols (columns edges_df) = Inr (s, t)"
        "detect_node_cols (columns nodes_df) = Inl x"
    | i l where "select nodes_df i l u = Inl x"
    | s t where "from_pandas_edgelist edges_df s t = Inl x"
    unfolding resolve_view_Inl by blast
  then show "detect_edge_cols (columns edges_df) = Inl x \<or>
     (\<exists>p. detect_edge_cols (columns edges_df) = Inr p) \<and>
       detect_node_cols (columns nodes_df) = Inl x"
  proof cases
    case 1 then show ?thesis by simp
  next
    case 2 then show ?thesis by simp
  next
    case 3
    from select_Inl[OF 3] assms show ?thesis by simp
  next
    case 4
    from from_pandas_edgelist_Inl[OF 4] assms show ?thesis by simp
  qed
next
  assume "detect_edge_cols (columns edges_df) = Inl x \<or>
     (\<exists>p. detect_edge_cols (columns edges_df) = Inr p) \<and>
       detect_node_cols (columns nodes_df) = Inl x"
  then show "resolve_view nodes_df edges_df u = Inl x"
    unfolding resolve_view_Inl by auto
qed


text \<open>
  Claim C8, as the code has it. The script stops with the edges schema error exactly when
  the edges table has neither both of \<^verbatim>\<open>from\<close>, \<^verbatim>\<open>to\<close> nor both of \<^verbatim>\<open>source\<close>,
  \<^verbatim>\<open>target\<close>; otherwise it stops with the nodes schema error exactly when the nodes table
  has neither \<^verbatim>\<open>coach_id\<close> nor \<^verbatim>\<open>id\<close>. An error carries no view: a view is computed
  only for tables that have an accepted pair of edge columns and an identity column. When
  both pairs of edge columns are present \<^verbatim>\<open>from\<close>, \<^verbatim>\<open>to\<close> are used, and when both
  identity columns are present \<^verbatim>\<open>coach_id\<close> is used.
\<close>

theorem schema_negotiation:
  "(resolve_view nodes_df edges_df u = Inl Edges_schema_error \<longleftrightarrow>
      \<not> (''from'' \<in> set (columns edges_df) \<and> ''to'' \<in> set (columns edges_df)) \<and>
      \<not> (''source'' \<in> set (columns edges_df) \<and> ''target'' \<in> set (columns edges_df))) \<and>
   (resolve_view nodes_df edges_df u = Inl Nodes_schema_error \<longleftrightarrow>
      (''from'' \<in> set (columns edges_df) \<and> ''to'' \<in> set (columns edges_df) \<or>
       ''source'' \<in> set (columns edges_df) \<and> ''target'' \<in> set (columns edges_df)) \<and>
      ''coach_id'' \<notin> set (columns nodes_df) \<and> ''id'' \<notin> set (columns nodes_df)) \<and>
   ((\<exists>v. resolve_view nodes_df edges_df u = Inr v) \<longrightarrow>
      (''from'' \<in> set (columns edges_df) \<and> ''to'' \<in> set (columns edges_df) \<or>
       ''source'' \<in> set (columns edges_df) \<and> ''target'' \<in> set (columns edges_df)) \<and>
      (''coach_id'' \<in> set (columns nodes_df) \<or> ''id'' \<in> set (columns nodes_df))) \<and>
   (''from'' \<in> set (columns edges_df) \<and> ''to'' \<in> set (columns edges_df) \<longrightarrow>
      detect_edge_cols (columns edges_df) = Inr (''from'', ''to'')) \<and>
   (\<not> (''from'' \<in> set (columns edges_df) \<and> ''to'' \<in> set (columns edges_df)) \<and>
    ''source'' \<in> set (columns edges_df) \<and> ''target'' \<in> set (columns edges_df) \<longrightarrow>
      detect_edge_cols (columns edges_df) = Inr (''source'', ''target'')) \<and>
   (''coach_id'' \<in> set (columns nodes_df) \<longrightarrow>
      map_sum id fst (detect_node_cols (columns nodes_df)) = Inr ''coach_id'') \<and>
   (''coach_id'' \<notin> set (columns nodes_df) \<and> ''id'' \<in> set (columns nodes_df) \<longrightarrow>
      map_sum id fst (detect_node_cols (columns nodes_df)) = Inr ''id'')"
proof -
  have ed: "(\<exists>p. detect_edge_cols (columns edges_df) = Inr p) \<longleftrightarrow>
      (''from'' \<in> set (columns edges_df) \<and> ''to'' \<in> set (columns edges_df) \<or>
       ''source'' \<in> set (columns edges_df) \<and> ''target'' \<in> set (columns edges_df))"
    by (auto simp: detect_edge_cols_def)
  have nd: "(\<exists>p. detect_node_cols (columns nodes_df) = Inr p) \<longleftrightarrow>
      (''coach_id'' \<in> set (columns nodes_df) \<or> ''id'' \<in> set (columns nodes_df))"
    by (auto simp: detect_node_cols_def)
  have 1: "resolve_view nodes_df edges_df u = Inl Edges_schema_error \<longleftrightarrow>
      \<not> (''from'' \<in> set (columns edges_df) \<and> ''to'' \<in> set (columns edges_df)) \<and>
      \<not> (''source'' \<in> set (columns edges_df) \<and> ''target'' \<in> set (columns edges_df))"
    unfolding resolve_view_schema_error[OF disjI1[OF refl]] detect_edge_cols_Inl
      detect_node_cols_Inl by simp
  have 2: "resolve_view nodes_df edges_df u = Inl Nodes_schema_error \<longleftrightarrow>
      (''from'' \<in> set (columns edges_df) \<and> ''to'' \<in> set (columns edges_df) \<or>
       ''source'' \<in> set (columns edges_df) \<and> ''target'' \<in> set (columns edges_df)) \<and>
      ''coach_id'' \<notin> set (columns nodes_df) \<and> ''id'' \<notin> set (columns nodes_df)"
    unfolding resolve_view_schema_error[OF disjI2[OF refl]] detect_edge_cols_Inl
      detect_node_cols_Inl ed by simp
  have 3: "(\<exists>v. resolve_view nodes_df edges_df u = Inr v) \<longrightarrow>
      (''from'' \<in> set (columns edges_df) \<and> ''to'' \<in> set (columns edges_df) \<or>
       ''source'' \<in> set (columns edges_df) \<and> ''target'' \<in> set (columns edges_df)) \<and>
      (''coach_id'' \<in> set (columns nodes_df) \<or> ''id'' \<in> set (columns nodes_df))"
  proof
    assume "\<exists>v. resolve_view nodes_df edges_df u = Inr v"
    then obtain v where "resolve_view nodes_df edges_df u = Inr v" ..
    from resolve_view_Inr_cols[OF this]
    have "(\<exists>p. detect_edge_cols (columns edges_df) = Inr p) \<and>
          (\<exists>p. detect_node_cols (columns nodes_df) = Inr p)"
      by blast
    then show "(''from'' \<in> set (columns edges_df) \<and> ''to'' \<in> set (columns edges_df) \<or>
       ''source'' \<in> set (columns edges_df) \<and> ''target'' \<in> set (columns edges_df)) \<and>
      (''coach_id'' \<in> set (columns nodes_df) \<or> ''id'' \<in> set (columns nodes_df))"
      unfolding ed nd .
  qed
  have 4: "''from'' \<in> set (columns edges_df) \<and> ''to'' \<in> set (columns edges_df) \<longrightarrow>
      detect_edge_cols (columns edges_df) = Inr (''from'', ''to'')"
    by (simp add: detect_edge_cols_def)
  have 5: "\<not> (''from'' \<in> set (columns edges_df) \<and> ''to'' \<in> set (columns edges_df)) \<and>
    ''source'' \<in> set (columns edges_df) \<and> ''target'' \<in> set (columns edges_df) \<longrightarrow>
      detect_edge_cols (columns edges_df) = Inr (''source'', ''target'')"
    by (simp add: detect_edge_cols_def)
  have 6: "''coach_id'' \<in> set (columns nodes_df) \<longrightarrow>
      map_sum id fst (detect_node_cols (columns nodes_df)) = Inr ''coach_id''"
    by (simp add: detect_node_cols_def)
  have 7: "''coach_id'' \<notin> set (columns nodes_df) \<and> ''id'' \<in> set (columns nodes_df) \<longrightarrow>
      map_sum id fst (detect_node_cols (columns nodes_df)) = Inr ''id''"
    by (simp add: detect_node_cols_def)
  from 1 2 3 4 5 6 7 show ?thesis by (intro conjI)
qed

theorem schema_negotiation_witness:
  "''from'' \<in> set (columns ex_edges_df) \<and> ''to'' \<in> set (columns ex_edges_df) \<and>
   ''id'' \<in> set (columns ex_nodes_df) \<and> ''coach_id'' \<notin> set (columns ex_nodes_df) \<and>
   detect_edge_cols (columns ex_edges_df) = Inr (''from'', ''to'') \<and>
   map_sum id fst (detect_node_cols (columns ex_nodes_df)) = Inr ''id'' \<and>
   resolve_view ex_nodes_df ex_edges_df ex_ui \<noteq> Inl Edges_schema_error \<and>
   resolve_view ex_nodes_df ex_edges_df ex_ui \<noteq> Inl Nodes_schema_error \<and>
   resolve_view ex_nodes_df ex_edges_df ex_ui
     = Inr (projr (resolve_view ex_nodes_df ex_edges_df ex_ui))"
proof -
  have c: "''from'' \<in> set (columns ex_edges_df)" "''to'' \<in> set (columns ex_edges_df)"
    "''id'' \<in> set (columns ex_nodes_df)" "''coach_id'' \<notin> set (columns ex_nodes_df)"
    by (simp_all add: ex_edges_df_def ex_nodes_df_def)
  have "\<not> isl (resolve_view ex_nodes_df ex_edges_df ex_ui)" by code_simp
  then have r: "resolve_view ex_nodes_df ex_edges_df ex_ui
     = Inr (projr (resolve_view ex_nodes_df ex_edges_df ex_ui))" by simp
  from schema_negotiation[of ex_nodes_df ex_edges_df ex_ui] c
  have "detect_edge_cols (columns ex_edges_df) = Inr (''from'', ''to'') \<and>
   map_sum id fst (detect_node_cols (columns ex_nodes_df)) = Inr ''id'' \<and>
   resolve_view ex_nodes_df ex_edges_df ex_ui \<noteq> Inl Edges_schema_error \<and>
   resolve_view ex_nodes_df ex_edges_df ex_ui \<noteq> Inl Nodes_schema_error"
    by simp
  with c r show ?thesis by simp
qed


text \<open>
  Claim C8 as stated fails where it asks for exactly one pair: tables that have both pairs
  of edge columns and both identity columns are accepted. With the node \<open>A\<close> (by
  \<^verbatim>\<open>coach_id\<close>; \<open>X\<close> by \<^verbatim>\<open>id\<close>) and the edge \<open>A \<rightarrow> B\<close> (by \<^verbatim>\<open>from\<close>, \<^verbatim>\<open>to\<close>; \<open>X \<rightarrow> Y\<close> by
  \<^verbatim>\<open>source\<close>, \<^verbatim>\<open>target\<close>) the script computes a view, whose focal node is \<open>A\<close> and whose
  selected nodes are \<open>A\<close> and \<open>B\<close>.
\<close>

theorem both_column_pairs_counterexample:
  "detect_edge_cols (columns ex_edges_both) = Inr (''from'', ''to'') \<and>
   detect_node_cols (columns ex_nodes_both) = Inr (''coach_id'', ''coach_id'') \<and>
   \<not> isl (resolve_view ex_nodes_both ex_edges_both ex_ui) \<and>
   selected_node (view_selection (projr (resolve_view ex_nodes_both ex_edges_both ex_ui)))
     = Some (StrC ''A'') \<and>
   view_connected_nodes (projr (resolve_view ex_nodes_both ex_edges_both ex_ui))
     = {StrC ''A'', StrC ''B''} \<and>
   columns ex_edges_both = [''from'', ''to'', ''source'', ''target''] \<and>
   columns ex_nodes_both = [''coach_id'', ''id'']"
proof -
  have 1: "detect_edge_cols (columns ex_edges_both) = Inr (''from'', ''to'')"
    by (simp add: detect_edge_cols_def ex_edges_both_def)
  have 2: "detect_node_cols (columns ex_nodes_both) = Inr (''coach_id'', ''coach_id'')"
    by (simp add: detect_node_cols_def ex_nodes_both_def)
  have 3: "\<not> isl (resolve_view ex_nodes_both ex_edges_both ex_ui)" by code_simp
  have 4: "selected_node (view_selection (projr (resolve_view ex_nodes_both ex_edges_both ex_ui)))
     = Some (StrC ''A'')" by code_simp
  have 5: "view_connected_nodes (projr (resolve_view ex_nodes_both ex_edges_both ex_ui))
     = {StrC ''A'', StrC ''B''}" by code_simp
  have 6: "columns ex_edges_both = [''from'', ''to'', ''source'', ''target'']"
    "columns ex_nodes_both = [''coach_id'', ''id'']"
    by (simp_all add: ex_edges_both_def ex_nodes_both_def)
  from 1 2 3 4 5 6 show ?thesis by (intro conjI)
qed

subsection \<open>The selected nodes\<close>

lemma selectbox_mem:
  assumes "selectbox opts k = Some x"
  shows "x \<in> set opts"
proof -
  from assms have o: "opts \<noteq> []" and x: "x = opts ! min k (length opts - 1)"
    by (auto simp: selectbox_def split: if_splits)
  from o have "min k (length opts - 1) < length opts"
    by (cases opts) simp_all
  then show ?thesis unfolding x by (rule nth_mem)
qed

lemma select_individual_Inr:
  assumes "select_individual nodes_df i l u ws = Inr sel"
  shows "filter_mode sel = Individual_Node"
    and "\<exists>f. selected_node sel = Some f"
    and "community_nodes sel = None"
    and "connection_depth sel = Some (radio_connection_depth u)"
    and "warnings sel = ws"
  using assms by (auto simp: select_individual_def split: option.splits)

lemma select_Inr_individual:
  assumes "select nodes_df i l u = Inr sel" and "filter_mode sel = Individual_Node"
  shows "connection_depth sel = Some (radio_connection_depth u)"
  using assms
  by (auto simp: select_def dest: select_individual_Inr(4) split: filter_mode.splits if_splits)

lemma select_Inr_community:
  assumes "select nodes_df i l u = Inr sel" and "filter_mode sel = Community"
  shows "radio_filter_mode u = Community"
    and "''community'' \<in> set (columns nodes_df)"
    and "communities nodes_df \<noteq> []"
    and "community_nodes sel =
           Some (case selectbox (communities nodes_df) (selectbox_community u) of
                   None \<Rightarrow> [] | Some c \<Rightarrow> community_members nodes_df i c)"
  using assms
  by (auto simp: select_def dest: select_individual_Inr(1) split: filter_mode.splits if_splits)

lemma select_depth_irrelevant:
  assumes "select nodes_df i l u = Inr sel" and "filter_mode sel = Community"
  shows "select nodes_df i l (u \<lparr> radio_connection_depth := d \<rparr>) = Inr sel"
  using assms
  by (auto simp: select_def dest: select_individual_Inr(1) split: filter_mode.splits if_splits)

text \<open>
  Line 135 raises only on a nodes table without rows, and the node it selects is an id of
  the nodes table; line 153 raises only on an edges table whose columns are the two endpoint
  columns.
\<close>

lemma length_node_labels:
  "length (node_labels nodes_df i l) = length (content nodes_df)"
  by (simp add: node_labels_def column_def)

lemma node_lookup_label:
  assumes "lab \<in> set (node_labels nodes_df i l)"
  shows "\<exists>f. node_lookup nodes_df i l lab = Some f \<and> f \<in> set (column nodes_df i)"
proof -
  let ?kvs = "zip (node_labels nodes_df i l) (column nodes_df i)"
  have len: "length (node_labels nodes_df i l) = length (column nodes_df i)"
    by (simp add: length_node_labels column_def)
  have "fst ` set (rev ?kvs) = set (map fst ?kvs)" by simp
  also have "\<dots> = set (node_labels nodes_df i l)" using len by (simp only: map_fst_zip)
  finally have "lab \<in> fst ` set (rev ?kvs)" using assms by simp
  then obtain f where f: "map_of (rev ?kvs) lab = Some f"
    by (cases "map_of (rev ?kvs) lab") (simp_all add: map_of_eq_None_iff)
  then have "(lab, f) \<in> set (rev ?kvs)" by (rule map_of_SomeD)
  then have "f \<in> set (column nodes_df i)" by (auto dest: set_zip_rightD)
  with f show ?thesis by (simp add: node_lookup_def)
qed

lemma select_individual_Key_error:
  "select_individual nodes_df i l u ws = Inl Key_error \<longleftrightarrow> content nodes_df = []"
proof (cases "content nodes_df = []")
  case True
  then have "node_labels nodes_df i l = []" using length_node_labels[of nodes_df i l] by simp
  then show ?thesis using True by (simp add: select_individual_def selectbox_def)
next
  case False
  then have ne: "node_labels nodes_df i l \<noteq> []" using length_node_labels[of nodes_df i l] by auto
  then obtain lab where s: "selectbox (node_labels nodes_df i l) (selectbox_node u) = Some lab"
    by (simp add: selectbox_def)
  from node_lookup_label[OF selectbox_mem[OF s]]
  obtain f where "node_lookup nodes_df i l lab = Some f" by blast
  with s False show ?thesis by (simp add: select_individual_def)
qed

lemma selected_node_in_table:
  assumes "select nodes_df i l u = Inr sel" and "selected_node sel = Some f"
  shows "f \<in> set (column nodes_df i)"
proof -
  from assms obtain ws where si: "select_individual nodes_df i l u ws = Inr sel"
    by (auto simp: select_def split: filter_mode.splits if_splits)
  then obtain lab where s: "selectbox (node_labels nodes_df i l) (selectbox_node u) = Some lab"
    and k: "node_lookup nodes_df i l lab = Some f"
    using assms(2) by (auto simp: select_individual_def split: option.splits)
  from node_lookup_label[OF selectbox_mem[OF s]] k show ?thesis by simp
qed

lemma from_pandas_edgelist_Networkx_error:
  "from_pandas_edgelist edges_df s t = Inl Networkx_error \<longleftrightarrow> set (columns edges_df) \<subseteq> {s, t}"
  by (auto simp: from_pandas_edgelist_def Let_def filter_empty_conv)

lemma connected_nodes_individual:
  assumes "filter_mode sel = Individual_Node" and "selected_node sel = Some f"
    and "f \<in> graph_nodes G"
  shows "connected_nodes G sel u =
           (if connection_depth sel = Some 1
            then {f} \<union> successors G f \<union> predecessors G f
            else {f} \<union> (successors G f \<union> predecessors G f) \<union>
                 (\<Union>w\<in>successors G f \<union> predecessors G f. successors G w \<union> predecessors G w), [])"
  using assms by (simp add: connected_nodes_def Let_def)

lemma connected_nodes_fallback:
  assumes "filter_mode sel = Individual_Node" and "selected_node sel = Some f"
    and "f \<notin> graph_nodes G"
  shows "connected_nodes G sel u = (graph_nodes G, [Selected_node_not_found f])"
  using assms by (simp add: connected_nodes_def)

lemma restrict_to_graph_nodes:
  assumes "from_pandas_edgelist edges_df s t = Inr G"
  shows "restrict_to_nodes edges_df s t (graph_nodes G) = edges_df"
proof -
  from assms have G: "G = map (\<lambda>r. (cell_at r s, cell_at r t)) (content edges_df)"
    by (auto simp: from_pandas_edgelist_def Let_def split: if_splits)
  have "filter (\<lambda>r. cell_at r s \<in> graph_nodes G \<and> cell_at r t \<in> graph_nodes G) (content edges_df)
        = content edges_df"
    unfolding G by (rule filter_True) (auto simp: graph_nodes_def)
  then show ?thesis by (simp add: restrict_to_nodes_def)
qed


text \<open>
  Claim C7. In Individual Node mode, with a focal node \<open>f\<close> selected from the nodes table and
  the graph \<open>G\<close> built from the edges table: when \<open>f\<close> is not a node of \<open>G\<close> the script does not
  stop. It computes a view whose selected nodes are all nodes of the graph (so the endpoint
  restriction keeps every edge), with the warning that the node was not found.
\<close>

theorem missing_focal_node_falls_back:
  assumes e: "detect_edge_cols (columns edges_df) = Inr (s, t)"
    and n: "detect_node_cols (columns nodes_df) = Inr (i, l)"
    and sl: "select nodes_df i l u = Inr sel"
    and m: "filter_mode sel = Individual_Node"
    and sn: "selected_node sel = Some f"
    and gr: "from_pandas_edgelist edges_df s t = Inr G"
    and nf: "f \<notin> graph_nodes G"
  shows "\<exists>v. resolve_view nodes_df edges_df u = Inr v \<and>
             view_connected_nodes v = graph_nodes G \<and>
             Selected_node_not_found f \<in> set (view_warnings v) \<and>
             restrict_to_nodes edges_df s t (view_connected_nodes v) = edges_df"
proof -
  obtain v where r: "resolve_view nodes_df edges_df u = Inr v"
    using resolve_view_total[OF e n sl gr] by blast
  note f = resolve_view_fields[OF r e n sl gr]
  have c: "connected_nodes G sel u = (graph_nodes G, [Selected_node_not_found f])"
    using m sn nf by (rule connected_nodes_fallback)
  have 1: "view_connected_nodes v = graph_nodes G"
    unfolding f(2) c by simp
  have 2: "Selected_node_not_found f \<in> set (view_warnings v)"
    unfolding f(3) c by simp
  have 3: "restrict_to_nodes edges_df s t (view_connected_nodes v) = edges_df"
    unfolding 1 using gr by (rule restrict_to_graph_nodes)
  from r 1 2 3 show ?thesis by (intro exI[of _ v] conjI)
qed

theorem missing_focal_node_falls_back_witness:
  "detect_edge_cols (columns ex_edges_years) = Inr (''source'', ''target'') \<and>
   detect_node_cols (columns ex_nodes_df) = Inr (''id'', ''id'') \<and>
   select ex_nodes_df ''id'' ''id'' (ex_ui \<lparr> selectbox_node := 3 \<rparr>)
     = Inr \<lparr> filter_mode = Individual_Node, selected_node = Some (StrC ''D''),
             community_nodes = None, connection_depth = Some 1, warnings = [] \<rparr> \<and>
   from_pandas_edgelist ex_edges_years ''source'' ''target''
     = Inr [(StrC ''A'', StrC ''B''), (StrC ''A'', StrC ''C''), (StrC ''B'', StrC ''C'')] \<and>
   StrC ''D'' \<notin> graph_nodes [(StrC ''A'', StrC ''B''), (StrC ''A'', StrC ''C''), (StrC ''B'', StrC ''C'')] \<and>
   resolve_view ex_nodes_df ex_edges_years (ex_ui \<lparr> selectbox_node := 3 \<rparr>)
     = Inr (projr (resolve_view ex_nodes_df ex_edges_years (ex_ui \<lparr> selectbox_node := 3 \<rparr>))) \<and>
   view_connected_nodes
      (projr (resolve_view ex_nodes_df ex_edges_years (ex_ui \<lparr> selectbox_node := 3 \<rparr>)))
     = {StrC ''A'', StrC ''B'', StrC ''C''} \<and>
   Selected_node_not_found (StrC ''D'') \<in> set (view_warnings
      (projr (resolve_view ex_nodes_df ex_edges_years (ex_ui \<lparr> selectbox_node := 3 \<rparr>))))"
proof -
  let ?u = "ex_ui \<lparr> selectbox_node := 3 \<rparr>"
  let ?sel = "\<lparr> filter_mode = Individual_Node, selected_node = Some (StrC ''D''),
             community_nodes = None, connection_depth = Some 1, warnings = [] \<rparr>"
  let ?G = "[(StrC ''A'', StrC ''B''), (StrC ''A'', StrC ''C''), (StrC ''B'', StrC ''C'')]"
  have e: "detect_edge_cols (columns ex_edges_years) = Inr (''source'', ''target'')"
    by (simp add: detect_edge_cols_def ex_edges_years_def)
  have n: "detect_node_cols (columns ex_nodes_df) = Inr (''id'', ''id'')"
    by (simp add: detect_node_cols_def ex_nodes_df_def)
  have sl: "select ex_nodes_df ''id'' ''id'' ?u = Inr ?sel" by code_simp
  have m: "filter_mode ?sel = Individual_Node" by simp
  have sn: "selected_node ?sel = Some (StrC ''D'')" by simp
  have gr: "from_pandas_edgelist ex_edges_years ''source'' ''target'' = Inr ?G" by code_simp
  have g: "graph_nodes ?G = {StrC ''A'', StrC ''B'', StrC ''C''}" by code_simp
  have nf: "StrC ''D'' \<notin> graph_nodes ?G" unfolding g by simp
  from missing_focal_node_falls_back[OF e n sl m sn gr nf]
  obtain v where v: "resolve_view ex_nodes_df ex_edges_years ?u = Inr v \<and>
             view_connected_nodes v = graph_nodes ?G \<and>
             Selected_node_not_found (StrC ''D'') \<in> set (view_warnings v) \<and>
             restrict_to_nodes ex_edges_years ''source'' ''target'' (view_connected_nodes v)
               = ex_edges_years" ..
  from v have p: "projr (resolve_view ex_nodes_df ex_edges_years ?u) = v" by simp
  from v have r: "resolve_view ex_nodes_df ex_edges_years ?u
                    = Inr (projr (resolve_view ex_nodes_df ex_edges_years ?u))"
    unfolding p by (rule conjunct1)
  from v have "view_connected_nodes v = {StrC ''A'', StrC ''B'', StrC ''C''}"
    unfolding g by (rule conjunct1[OF conjunct2])
  then have c: "view_connected_nodes (projr (resolve_view ex_nodes_df ex_edges_years ?u))
     = {StrC ''A'', StrC ''B'', StrC ''C''}" unfolding p .
  from v have "Selected_node_not_found (StrC ''D'') \<in> set (view_warnings v)"
    by (rule conjunct1[OF conjunct2[OF conjunct2]])
  then have w: "Selected_node_not_found (StrC ''D'') \<in> set (view_warnings
      (projr (resolve_view ex_nodes_df ex_edges_years ?u)))" unfolding p .
  from e n sl gr nf r c w show ?thesis by (intro conjI)
qed

text \<open>
  Claim C4. In Individual Node mode with the focal node \<open>f\<close> a node of the graph \<open>G\<close>: at
  depth 1 the selected nodes are \<open>f\<close>, its successors and its predecessors; at depth 2 they
  are \<open>f\<close>, the first hop \<open>H1\<close> (successors and predecessors of \<open>f\<close>) and the successors and
  predecessors of every node of \<open>H1\<close>: both hops follow edges in both directions. For the
  graph \<open>A \<rightarrow> B\<close>, \<open>C \<rightarrow> A\<close> and focal node \<open>A\<close>, depth 1 gives \<open>{A, B, C}\<close>; with the edge
  \<open>B \<rightarrow> D\<close> added, depth 2 gives \<open>{A, B, C, D}\<close>. The two edges tables have the endpoint
  columns and a third column, \<^verbatim>\<open>connection_type\<close>.
\<close>

theorem individual_node_depth:
  assumes r: "resolve_view nodes_df edges_df u = Inr v"
    and e: "detect_edge_cols (columns edges_df) = Inr (s, t)"
    and gr: "from_pandas_edgelist edges_df s t = Inr G"
    and m: "filter_mode (view_selection v) = Individual_Node"
    and sn: "selected_node (view_selection v) = Some f"
    and g: "f \<in> graph_nodes G"
  shows "(radio_connection_depth u = 1 \<longrightarrow>
            view_connected_nodes v = {f} \<union> successors G f \<union> predecessors G f) \<and>
         (radio_connection_depth u = 2 \<longrightarrow>
            view_connected_nodes v =
              {f} \<union> (successors G f \<union> predecessors G f)
              \<union> (\<Union>w\<in>successors G f \<union> predecessors G f. successors G w \<union> predecessors G w)) \<and>
         \<not> isl (resolve_view ex_nodes_df ex_edges_df ex_ui) \<and>
         selected_node (view_selection (projr (resolve_view ex_nodes_df ex_edges_df ex_ui)))
           = Some (StrC ''A'') \<and>
         view_connected_nodes (projr (resolve_view ex_nodes_df ex_edges_df ex_ui))
           = {StrC ''A'', StrC ''B'', StrC ''C''} \<and>
         \<not> isl (resolve_view ex_nodes_df ex_edges_df2 (ex_ui \<lparr> radio_connection_depth := 2 \<rparr>)) \<and>
         selected_node (view_selection
           (projr (resolve_view ex_nodes_df ex_edges_df2 (ex_ui \<lparr> radio_connection_depth := 2 \<rparr>))))
           = Some (StrC ''A'') \<and>
         view_connected_nodes
           (projr (resolve_view ex_nodes_df ex_edges_df2 (ex_ui \<lparr> radio_connection_depth := 2 \<rparr>)))
           = {StrC ''A'', StrC ''B'', StrC ''C'', StrC ''D''}"
proof -
  obtain i l sel G' where n: "detect_node_cols (columns nodes_df) = Inr (i, l)"
    and sl: "select nodes_df i l u = Inr sel"
    and gr': "from_pandas_edgelist edges_df s t = Inr G'"
    using resolve_view_Inr_parts[OF r e] by blast
  from gr gr' have GG: "G' = G" by simp
  note f = resolve_view_fields[OF r e n sl gr]
  have m': "filter_mode sel = Individual_Node" using m unfolding f(1) .
  have sn': "selected_node sel = Some f" using sn unfolding f(1) .
  have c: "connected_nodes G sel u =
           (if connection_depth sel = Some 1
            then {f} \<union> successors G f \<union> predecessors G f
            else {f} \<union> (successors G f \<union> predecessors G f) \<union>
                 (\<Union>w\<in>successors G f \<union> predecessors G f. successors G w \<union> predecessors G w), [])"
    using m' sn' g by (rule connected_nodes_individual)
  have d: "connection_depth sel = Some (radio_connection_depth u)"
    using sl m' by (rule select_Inr_individual)
  have 1: "radio_connection_depth u = 1 \<longrightarrow>
            view_connected_nodes v = {f} \<union> successors G f \<union> predecessors G f"
    unfolding f(2) c d by simp
  have 2: "radio_connection_depth u = 2 \<longrightarrow>
            view_connected_nodes v =
              {f} \<union> (successors G f \<union> predecessors G f) \<union>
              (\<Union>w\<in>successors G f \<union> predecessors G f. successors G w \<union> predecessors G w)"
    unfolding f(2) c d by simp
  have 3: "\<not> isl (resolve_view ex_nodes_df ex_edges_df ex_ui)" by code_simp
  have 4: "selected_node (view_selection (projr (resolve_view ex_nodes_df ex_edges_df ex_ui)))
           = Some (StrC ''A'')" by code_simp
  have 5: "view_connected_nodes (projr (resolve_view ex_nodes_df ex_edges_df ex_ui))
           = {StrC ''A'', StrC ''B'', StrC ''C''}"
    by code_simp
  have 6: "\<not> isl (resolve_view ex_nodes_df ex_edges_df2 (ex_ui \<lparr> radio_connection_depth := 2 \<rparr>))"
    by code_simp
  have 7: "selected_node (view_selection
           (projr (resolve_view ex_nodes_df ex_edges_df2 (ex_ui \<lparr> radio_connection_depth := 2 \<rparr>))))
           = Some (StrC ''A'')" by code_simp
  have 8: "view_connected_nodes
           (projr (resolve_view ex_nodes_df ex_edges_df2 (ex_ui \<lparr> radio_connection_depth := 2 \<rparr>)))
           = {StrC ''A'', StrC ''B'', StrC ''C'', StrC ''D''}"
    by code_simp
  from 1 2 3 4 5 6 7 8 show ?thesis by (intro conjI)
qed

theorem individual_node_depth_witness:
  "resolve_view ex_nodes_df ex_edges_df2 (ex_ui \<lparr> radio_connection_depth := 2 \<rparr>)
     = Inr (projr (resolve_view ex_nodes_df ex_edges_df2 (ex_ui \<lparr> radio_connection_depth := 2 \<rparr>))) \<and>
   detect_edge_cols (columns ex_edges_df2) = Inr (''from'', ''to'') \<and>
   columns ex_edges_df2 = [''from'', ''to'', ''connection_type''] \<and>
   from_pandas_edgelist ex_edges_df2 ''from'' ''to''
     = Inr [(StrC ''A'', StrC ''B''), (StrC ''C'', StrC ''A''), (StrC ''B'', StrC ''D'')] \<and>
   filter_mode (view_selection
      (projr (resolve_view ex_nodes_df ex_edges_df2 (ex_ui \<lparr> radio_connection_depth := 2 \<rparr>))))
     = Individual_Node \<and>
   selected_node (view_selection
      (projr (resolve_view ex_nodes_df ex_edges_df2 (ex_ui \<lparr> radio_connection_depth := 2 \<rparr>))))
     = Some (StrC ''A'') \<and>
   StrC ''A'' \<in> graph_nodes [(StrC ''A'', StrC ''B''), (StrC ''C'', StrC ''A''), (StrC ''B'', StrC ''D'')] \<and>
   successors [(StrC ''A'', StrC ''B''), (StrC ''C'', StrC ''A''), (StrC ''B'', StrC ''D'')] (StrC ''A'')
     = {StrC ''B''} \<and>
   predecessors [(StrC ''A'', StrC ''B''), (StrC ''C'', StrC ''A''), (StrC ''B'', StrC ''D'')] (StrC ''A'')
     = {StrC ''C''} \<and>
   view_connected_nodes
      (projr (resolve_view ex_nodes_df ex_edges_df2 (ex_ui \<lparr> radio_connection_depth := 2 \<rparr>)))
     = {StrC ''A''} \<union> ({StrC ''B''} \<union> {StrC ''C''}) \<union>
       (\<Union>w\<in>{StrC ''B''} \<union> {StrC ''C''}.
           successors [(StrC ''A'', StrC ''B''), (StrC ''C'', StrC ''A''), (StrC ''B'', StrC ''D'')] w
           \<union> predecessors [(StrC ''A'', StrC ''B''), (StrC ''C'', StrC ''A''), (StrC ''B'', StrC ''D'')] w)"
proof -
  let ?u = "ex_ui \<lparr> radio_connection_depth := 2 \<rparr>"
  let ?v = "projr (resolve_view ex_nodes_df ex_edges_df2 ?u)"
  let ?G = "[(StrC ''A'', StrC ''B''), (StrC ''C'', StrC ''A''), (StrC ''B'', StrC ''D'')]"
  have "\<not> isl (resolve_view ex_nodes_df ex_edges_df2 ?u)" by code_simp
  then have r: "resolve_view ex_nodes_df ex_edges_df2 ?u = Inr ?v" by simp
  have e: "detect_edge_cols (columns ex_edges_df2) = Inr (''from'', ''to'')"
    by (simp add: detect_edge_cols_def ex_edges_df2_def)
  have k: "columns ex_edges_df2 = [''from'', ''to'', ''connection_type'']"
    by (simp add: ex_edges_df2_def)
  have gr: "from_pandas_edgelist ex_edges_df2 ''from'' ''to'' = Inr ?G" by code_simp
  have m: "filter_mode (view_selection ?v) = Individual_Node" by code_simp
  have sn: "selected_node (view_selection ?v) = Some (StrC ''A'')" by code_simp
  have g: "StrC ''A'' \<in> graph_nodes ?G" by code_simp
  have a: "radio_connection_depth ?u = 2" by (simp add: ex_ui_def)
  have s: "successors ?G (StrC ''A'') = {StrC ''B''}" by code_simp
  have p: "predecessors ?G (StrC ''A'') = {StrC ''C''}" by code_simp
  note t = individual_node_depth[OF r e gr m sn g]
  from t have "radio_connection_depth ?u = 2 \<longrightarrow>
            view_connected_nodes ?v =
              {StrC ''A''}
              \<union> (successors ?G (StrC ''A'') \<union> predecessors ?G (StrC ''A''))
              \<union> (\<Union>w\<in>successors ?G (StrC ''A'') \<union> predecessors ?G (StrC ''A'').
                    successors ?G w \<union> predecessors ?G w)"
    by (rule conjunct1[OF conjunct2])
  with a have "view_connected_nodes ?v =
              {StrC ''A''}
              \<union> (successors ?G (StrC ''A'') \<union> predecessors ?G (StrC ''A''))
              \<union> (\<Union>w\<in>successors ?G (StrC ''A'') \<union> predecessors ?G (StrC ''A'').
                    successors ?G w \<union> predecessors ?G w)"
    by (rule rev_mp)
  then have c: "view_connected_nodes ?v = {StrC ''A''} \<union> ({StrC ''B''} \<union> {StrC ''C''}) \<union>
       (\<Union>w\<in>{StrC ''B''} \<union> {StrC ''C''}. successors ?G w \<union> predecessors ?G w)"
    unfolding s p .
  from r e k gr m sn g s p c show ?thesis by (intro conjI)
qed

subsection \<open>Community mode\<close>

lemma set_py_sorted: "set (py_sorted xs) = set xs"
  by (simp add: py_sorted_def)

lemma communities_mem:
  assumes "c \<in> set (communities nodes_df)"
  shows "c \<noteq> NaN" and "c \<in> set (column nodes_df ''community'')"
  using assms by (auto simp: communities_def set_py_sorted set_drop_duplicates dropna_def)

lemma community_members_nonempty:
  assumes "c \<in> set (communities nodes_df)"
  shows "community_members nodes_df i c \<noteq> []"
proof -
  from communities_mem[OF assms]
  obtain r where "r \<in> set (content nodes_df)" "cell_at r ''community'' = c" "c \<noteq> NaN"
    by (auto simp: column_def)
  then have "r \<in> set (filter (\<lambda>r. cell_at r ''community'' \<noteq> NaN \<and> c \<noteq> NaN \<and>
                     cell_at r ''community'' = c) (content nodes_df))"
    by simp
  then show ?thesis unfolding community_members_def by (auto simp: filter_empty_conv)
qed

lemma outside_graph_no_edges:
  assumes "n \<notin> graph_nodes G"
  shows "successors G n = {}" and "predecessors G n = {}"
proof -
  have "\<forall>e\<in>set G. fst e \<noteq> n \<and> snd e \<noteq> n"
  proof
    fix e assume "e \<in> set G"
    then have "fst e \<in> graph_nodes G" "snd e \<in> graph_nodes G"
      by (simp_all add: graph_nodes_def)
    with assms show "fst e \<noteq> n \<and> snd e \<noteq> n" by metis
  qed
  then show "successors G n = {}" and "predecessors G n = {}"
    by (simp_all add: successors_def predecessors_def filter_empty_conv)
qed

lemma fold_union_neighbours:
  "fold (\<lambda>node acc. if node \<in> N then acc \<union> S node \<union> P node else acc) ns A
     = A \<union> (\<Union>m\<in>set ns \<inter> N. S m \<union> P m)"
  by (induction ns arbitrary: A) auto

lemma connected_nodes_community:
  assumes "filter_mode sel = Community" and "community_nodes sel = Some ns" and "ns \<noteq> []"
  shows "connected_nodes G sel u =
           (if checkbox_include_external u
            then set ns \<union> (\<Union>m\<in>set ns. successors G m \<union> predecessors G m)
            else set ns, [])"
proof -
  have "(\<Union>m\<in>set ns \<inter> graph_nodes G. successors G m \<union> predecessors G m)
          = (\<Union>m\<in>set ns. successors G m \<union> predecessors G m)"
    using outside_graph_no_edges[of _ G] by blast
  then show ?thesis
    using assms by (simp add: connected_nodes_def fold_union_neighbours)
qed

lemma connected_nodes_depth_irrelevant:
  "connected_nodes G sel (u \<lparr> radio_connection_depth := d \<rparr>) = connected_nodes G sel u"
  by (simp add: connected_nodes_def split: option.split)

lemma resolve_view_depth_irrelevant:
  assumes r: "resolve_view nodes_df edges_df u = Inr v"
    and m: "filter_mode (view_selection v) = Community"
  shows "resolve_view nodes_df edges_df (u \<lparr> radio_connection_depth := d \<rparr>) = Inr v"
proof -
  obtain s t i l where e: "detect_edge_cols (columns edges_df) = Inr (s, t)"
    and n: "detect_node_cols (columns nodes_df) = Inr (i, l)"
    using resolve_view_Inr_cols[OF r] by blast
  obtain i' l' sel G where n': "detect_node_cols (columns nodes_df) = Inr (i', l')"
    and sl': "select nodes_df i' l' u = Inr sel"
    and gr: "from_pandas_edgelist edges_df s t = Inr G"
    using resolve_view_Inr_parts[OF r e] by blast
  from n n' have "i' = i" "l' = l" by simp_all
  with sl' have sl: "select nodes_df i l u = Inr sel" by simp
  have "view_selection v = sel" by (rule resolve_view_fields(1)[OF r e n sl gr])
  with m have "filter_mode sel = Community" by simp
  with sl have h: "select nodes_df i l (u \<lparr> radio_connection_depth := d \<rparr>) = Inr sel"
    by (rule select_depth_irrelevant)
  show ?thesis
    using r
    by (simp add: resolve_view_def e n sl gr h connected_nodes_depth_irrelevant Let_def split_def)
qed


text \<open>
  Claim C5. In Community mode (the mode in force after line 118, that is, the nodes table
  has a community column with a valid value) with the community \<open>c\<close> picked in the select box:
  the community's nodes \<open>ns\<close> are the ids of the rows of the nodes table whose community is
  \<open>c\<close>, and there is at least one. Without the include-external flag the selected nodes are
  exactly \<open>ns\<close>; with it they are \<open>ns\<close> and the successors and predecessors of every node of
  \<open>ns\<close>, one hop and no more. The depth radio has no effect: any other depth gives the same
  view.
\<close>

theorem community_mode_nodes:
  assumes r: "resolve_view nodes_df edges_df u = Inr v"
    and e: "detect_edge_cols (columns edges_df) = Inr (s, t)"
    and n: "detect_node_cols (columns nodes_df) = Inr (i, l)"
    and gr: "from_pandas_edgelist edges_df s t = Inr G"
    and m: "filter_mode (view_selection v) = Community"
    and sc: "selectbox (communities nodes_df) (selectbox_community u) = Some c"
  shows "community_nodes (view_selection v) = Some (community_members nodes_df i c) \<and>
         set (community_members nodes_df i c)
           = {cell_at r i | r. r \<in> set (content nodes_df) \<and> cell_at r ''community'' = c} \<and>
         community_members nodes_df i c \<noteq> [] \<and>
         (\<not> checkbox_include_external u \<longrightarrow>
            view_connected_nodes v = set (community_members nodes_df i c)) \<and>
         (checkbox_include_external u \<longrightarrow>
            view_connected_nodes v =
              set (community_members nodes_df i c)
              \<union> (\<Union>w\<in>set (community_members nodes_df i c). successors G w \<union> predecessors G w)) \<and>
         (\<forall>d. resolve_view nodes_df edges_df (u \<lparr> radio_connection_depth := d \<rparr>) = Inr v)"
proof -
  let ?ns = "community_members nodes_df i c"
  obtain i' l' sel G' where n': "detect_node_cols (columns nodes_df) = Inr (i', l')"
    and sl': "select nodes_df i' l' u = Inr sel"
    and gr': "from_pandas_edgelist edges_df s t = Inr G'"
    using resolve_view_Inr_parts[OF r e] by blast
  from n n' have "i' = i" "l' = l" by simp_all
  with sl' have sl: "select nodes_df i l u = Inr sel" by simp
  note f = resolve_view_fields[OF r e n sl gr]
  have m': "filter_mode sel = Community" using m unfolding f(1) .
  have cm: "c \<in> set (communities nodes_df)" using sc by (rule selectbox_mem)
  have 1: "community_nodes (view_selection v) = Some ?ns"
    unfolding f(1) select_Inr_community(4)[OF sl m'] sc by simp
  have cn: "c \<noteq> NaN" using cm by (rule communities_mem(1))
  have 2: "set ?ns = {cell_at r i | r. r \<in> set (content nodes_df) \<and> cell_at r ''community'' = c}"
    using cn by (auto simp: community_members_def)
  have 3: "?ns \<noteq> []" using cm by (rule community_members_nonempty)
  have cs: "community_nodes sel = Some ?ns" using 1 unfolding f(1) .
  have c: "connected_nodes G sel u =
           (if checkbox_include_external u
            then set ?ns \<union> (\<Union>m\<in>set ?ns. successors G m \<union> predecessors G m)
            else set ?ns, [])"
    using m' cs 3 by (rule connected_nodes_community)
  have 4: "\<not> checkbox_include_external u \<longrightarrow> view_connected_nodes v = set ?ns"
    unfolding f(2) c by simp
  have 5: "checkbox_include_external u \<longrightarrow>
            view_connected_nodes v =
              set ?ns \<union> (\<Union>w\<in>set ?ns. successors G w \<union> predecessors G w)"
    unfolding f(2) c by simp
  have 6: "\<forall>d. resolve_view nodes_df edges_df (u \<lparr> radio_connection_depth := d \<rparr>) = Inr v"
    using resolve_view_depth_irrelevant[OF r m] by blast
  from 1 2 3 4 5 6 show ?thesis by (intro conjI)
qed

theorem community_mode_nodes_witness:
  "resolve_view ex_nodes_df ex_edges_years (ex_ui_community \<lparr> checkbox_include_external := True \<rparr>)
     = Inr (projr (resolve_view ex_nodes_df ex_edges_years
                     (ex_ui_community \<lparr> checkbox_include_external := True \<rparr>))) \<and>
   detect_edge_cols (columns ex_edges_years) = Inr (''source'', ''target'') \<and>
   detect_node_cols (columns ex_nodes_df) = Inr (''id'', ''id'') \<and>
   from_pandas_edgelist ex_edges_years ''source'' ''target''
     = Inr [(StrC ''A'', StrC ''B''), (StrC ''A'', StrC ''C''), (StrC ''B'', StrC ''C'')] \<and>
   filter_mode (view_selection (projr (resolve_view ex_nodes_df ex_edges_years
                     (ex_ui_community \<lparr> checkbox_include_external := True \<rparr>)))) = Community \<and>
   selectbox (communities ex_nodes_df)
      (selectbox_community (ex_ui_community \<lparr> checkbox_include_external := True \<rparr>)) = Some (IntC 1) \<and>
   community_members ex_nodes_df ''id'' (IntC 1) = [StrC ''A'', StrC ''B''] \<and>
   view_connected_nodes (projr (resolve_view ex_nodes_df ex_edges_years
                     (ex_ui_community \<lparr> checkbox_include_external := True \<rparr>)))
     = {StrC ''A'', StrC ''B'', StrC ''C''} \<and>
   resolve_view ex_nodes_df ex_edges_years
      (ex_ui_community \<lparr> checkbox_include_external := True, radio_connection_depth := 2 \<rparr>)
     = resolve_view ex_nodes_df ex_edges_years (ex_ui_community \<lparr> checkbox_include_external := True \<rparr>)"
proof -
  let ?u = "ex_ui_community \<lparr> checkbox_include_external := True \<rparr>"
  let ?v = "projr (resolve_view ex_nodes_df ex_edges_years ?u)"
  let ?G = "[(StrC ''A'', StrC ''B''), (StrC ''A'', StrC ''C''), (StrC ''B'', StrC ''C'')]"
  have "\<not> isl (resolve_view ex_nodes_df ex_edges_years ?u)" by code_simp
  then have r: "resolve_view ex_nodes_df ex_edges_years ?u = Inr ?v" by simp
  have e: "detect_edge_cols (columns ex_edges_years) = Inr (''source'', ''target'')"
    by (simp add: detect_edge_cols_def ex_edges_years_def)
  have n: "detect_node_cols (columns ex_nodes_df) = Inr (''id'', ''id'')"
    by (simp add: detect_node_cols_def ex_nodes_df_def)
  have gr: "from_pandas_edgelist ex_edges_years ''source'' ''target'' = Inr ?G" by code_simp
  have m: "filter_mode (view_selection ?v) = Community" by code_simp
  have sc: "selectbox (communities ex_nodes_df) (selectbox_community ?u) = Some (IntC 1)"
    by code_simp
  have ms: "community_members ex_nodes_df ''id'' (IntC 1) = [StrC ''A'', StrC ''B'']"
    by code_simp
  have x: "checkbox_include_external ?u" by (simp add: ex_ui_community_def)
  have nb: "(\<Union>w\<in>set [StrC ''A'', StrC ''B'']. successors ?G w \<union> predecessors ?G w)
              = {StrC ''A'', StrC ''B'', StrC ''C''}"
    by code_simp
  note t = community_mode_nodes[OF r e n gr m sc]
  from t have "checkbox_include_external ?u \<longrightarrow>
            view_connected_nodes ?v =
              set (community_members ex_nodes_df ''id'' (IntC 1))
              \<union> (\<Union>w\<in>set (community_members ex_nodes_df ''id'' (IntC 1)).
                    successors ?G w \<union> predecessors ?G w)"
    by (rule conjunct1[OF conjunct2[OF conjunct2[OF conjunct2[OF conjunct2]]]])
  with x have "view_connected_nodes ?v =
              set (community_members ex_nodes_df ''id'' (IntC 1))
              \<union> (\<Union>w\<in>set (community_members ex_nodes_df ''id'' (IntC 1)).
                    successors ?G w \<union> predecessors ?G w)"
    by (rule rev_mp)
  then have c: "view_connected_nodes ?v = {StrC ''A'', StrC ''B'', StrC ''C''}"
    unfolding ms nb by auto
  from t have "\<forall>d. resolve_view ex_nodes_df ex_edges_years (?u \<lparr> radio_connection_depth := d \<rparr>)
                  = Inr ?v"
    by (rule conjunct2[OF conjunct2[OF conjunct2[OF conjunct2[OF conjunct2]]]])
  then have "resolve_view ex_nodes_df ex_edges_years (?u \<lparr> radio_connection_depth := 2 \<rparr>) = Inr ?v"
    by (rule spec)
  with r have d: "resolve_view ex_nodes_df ex_edges_years (?u \<lparr> radio_connection_depth := 2 \<rparr>)
                    = resolve_view ex_nodes_df ex_edges_years ?u" by simp
  from r e n gr m sc ms c d show ?thesis by (intro conjI)
qed

end
